theory Spec2Isabelle
  imports Main "HOL-Library.Log_Nat"
begin

section \<open>Strings\<close>

text \<open>
  Python strings are modelled as \<^typ>\<open>string\<close> (lists of characters with code points
  below 256). \<open>is_space\<close> is \<open>str.isspace\<close> on that range, \<open>strip\<close> is
  \<open>str.strip()\<close> with no argument.
\<close>

definition is_space :: "char \<Rightarrow> bool" where
  "is_space c = (let n = of_char c :: nat in
     (9 \<le> n \<and> n \<le> 13) \<or> (28 \<le> n \<and> n \<le> 32) \<or> n = 133 \<or> n = 160)"

definition strip :: "string \<Rightarrow> string" where
  "strip s = rev (dropWhile is_space (rev (dropWhile is_space s)))"

section \<open>Python floats\<close>

text \<open>
  A Python \<open>float\<close> is an IEEE binary64 value. A finite one is modelled by the rational
  it denotes, next to the two infinities and NaN; the sign of a zero is not represented.
  \<open>fl\<close> rounds an exact result to the nearest binary64 value, ties to even:
  53 significant bits, smallest quantum \<open>2^-1074\<close>, and an infinity when the rounded
  magnitude reaches \<open>2^1024\<close>.
\<close>

datatype pyfloat = Fin rat | PInf | NInf | NaN

definition pow2 :: "int \<Rightarrow> rat" where
  "pow2 e = (if 0 \<le> e then 2 ^ nat e else 1 / 2 ^ nat (- e))"

definition ilog2 :: "rat \<Rightarrow> int" where
  \<comment> \<open>the integer part of the binary logarithm of \<open>x > 0\<close>, from the bit lengths of
      numerator and denominator\<close>
  "ilog2 x = (let (p, q) = quotient_of x;
                  d = bitlen p - bitlen q
              in if pow2 d \<le> x then d else d - 1)"

definition round_half_even :: "rat \<Rightarrow> int" where
  "round_half_even x = (let f = \<lfloor>x\<rfloor>; r = x - of_int f in
     if r < 1 / 2 then f else if 1 / 2 < r then f + 1 else if even f then f else f + 1)"

definition quantum :: "rat \<Rightarrow> rat" where
  "quantum x = pow2 (max (ilog2 \<bar>x\<bar>) (- 1022) - 52)"

definition fl :: "rat \<Rightarrow> pyfloat" where
  "fl x = (if x = 0 then Fin 0
           else let r = of_int (round_half_even (x / quantum x)) * quantum x
                in if 1024 \<le> ilog2 \<bar>r\<bar> then (if 0 < r then PInf else NInf)
                   else Fin r)"

text \<open>The float values: those finite ones that rounding leaves alone, infinities, NaN.\<close>

fun is_float :: "pyfloat \<Rightarrow> bool" where
  "is_float (Fin x) = (fl x = Fin x)"
| "is_float _ = True"

fun f_neg :: "pyfloat \<Rightarrow> pyfloat" where
  "f_neg (Fin x) = Fin (- x)"
| "f_neg PInf = NInf"
| "f_neg NInf = PInf"
| "f_neg NaN = NaN"

fun f_add :: "pyfloat \<Rightarrow> pyfloat \<Rightarrow> pyfloat" where
  "f_add NaN _ = NaN"
| "f_add _ NaN = NaN"
| "f_add PInf NInf = NaN"
| "f_add NInf PInf = NaN"
| "f_add PInf _ = PInf"
| "f_add _ PInf = PInf"
| "f_add NInf _ = NInf"
| "f_add _ NInf = NInf"
| "f_add (Fin x) (Fin y) = fl (x + y)"

definition f_sub :: "pyfloat \<Rightarrow> pyfloat \<Rightarrow> pyfloat" where
  "f_sub a b = f_add a (f_neg b)"

fun f_mul :: "pyfloat \<Rightarrow> pyfloat \<Rightarrow> pyfloat" where
  "f_mul NaN _ = NaN"
| "f_mul _ NaN = NaN"
| "f_mul (Fin x) (Fin y) = fl (x * y)"
| "f_mul (Fin x) PInf = (if x = 0 then NaN else if 0 < x then PInf else NInf)"
| "f_mul (Fin x) NInf = (if x = 0 then NaN else if 0 < x then NInf else PInf)"
| "f_mul PInf (Fin y) = (if y = 0 then NaN else if 0 < y then PInf else NInf)"
| "f_mul NInf (Fin y) = (if y = 0 then NaN else if 0 < y then NInf else PInf)"
| "f_mul PInf PInf = PInf"
| "f_mul NInf NInf = PInf"
| "f_mul PInf NInf = NInf"
| "f_mul NInf PInf = NInf"

text \<open>Division raises \<open>ZeroDivisionError\<close> on a zero divisor: \<open>None\<close>.\<close>

fun f_div :: "pyfloat \<Rightarrow> pyfloat \<Rightarrow> pyfloat option" where
  "f_div a (Fin y) =
     (if y = 0 then None
      else Some (case a of
                   Fin x \<Rightarrow> fl (x / y)
                 | PInf \<Rightarrow> (if 0 < y then PInf else NInf)
                 | NInf \<Rightarrow> (if 0 < y then NInf else PInf)
                 | NaN \<Rightarrow> NaN))"
| "f_div NaN _ = Some NaN"
| "f_div _ NaN = Some NaN"
| "f_div (Fin x) _ = Some (Fin 0)"
| "f_div _ _ = Some NaN"

fun f_lt :: "pyfloat \<Rightarrow> pyfloat \<Rightarrow> bool" where
  "f_lt NaN _ = False"
| "f_lt _ NaN = False"
| "f_lt (Fin x) (Fin y) = (x < y)"
| "f_lt NInf NInf = False"
| "f_lt NInf _ = True"
| "f_lt _ NInf = False"
| "f_lt PInf _ = False"
| "f_lt _ PInf = True"

fun f_le :: "pyfloat \<Rightarrow> pyfloat \<Rightarrow> bool" where
  "f_le NaN _ = False"
| "f_le _ NaN = False"
| "f_le (Fin x) (Fin y) = (x \<le> y)"
| "f_le NInf _ = True"
| "f_le _ PInf = True"
| "f_le _ NInf = False"
| "f_le PInf _ = False"

text \<open>\<open>a > b\<close> and \<open>a >= b\<close> are \<open>b < a\<close> and \<open>b <= a\<close>; \<open>bool(a)\<close> is \<open>a != 0.0\<close>.\<close>

definition f_gt :: "pyfloat \<Rightarrow> pyfloat \<Rightarrow> bool" where
  "f_gt a b = f_lt b a"

definition f_ge :: "pyfloat \<Rightarrow> pyfloat \<Rightarrow> bool" where
  "f_ge a b = f_le b a"

definition truthy :: "pyfloat \<Rightarrow> bool" where
  "truthy a = (a \<noteq> Fin 0)"

subsection \<open>The conversion \<open>float(str)\<close>\<close>

definition is_digit :: "char \<Rightarrow> bool" where
  "is_digit c = (let n = of_char c :: nat in 48 \<le> n \<and> n \<le> 57)"

definition int_of_digits :: "string \<Rightarrow> int" where
  "int_of_digits ds = foldl (\<lambda>n c. 10 * n + (of_char c - 48)) 0 ds"

definition to_lower :: "char \<Rightarrow> char" where
  "to_lower c = (let n = of_char c :: nat in if 65 \<le> n \<and> n \<le> 90 then char_of (n + 32) else c)"

text \<open>
  \<open>digits_us\<close> reads the rest of a digit group, digits each optionally preceded by one
  underscore, and returns the digits and what follows; \<open>digitpart\<close> is a whole group,
  which starts with a digit: an underscore is accepted only between two digits.
\<close>

fun digits_us :: "string \<Rightarrow> string \<times> string" where
  "digits_us [] = ([], [])"
| "digits_us (c # cs) =
     (if is_digit c then (let (ds, r) = digits_us cs in (c # ds, r))
      else if c = CHR ''_'' then
        (case cs of
           [] \<Rightarrow> ([], c # cs)
         | d # cs' \<Rightarrow>
             if is_digit d then (let (ds, r) = digits_us cs' in (d # ds, r)) else ([], c # cs))
      else ([], c # cs))"

definition digitpart :: "string \<Rightarrow> (string \<times> string) option" where
  "digitpart s =
     (case s of
        [] \<Rightarrow> None
      | c # cs \<Rightarrow> if is_digit c then (let (ds, r) = digits_us cs in Some (c # ds, r)) else None)"

definition split_sign :: "string \<Rightarrow> bool \<times> string" where
  "split_sign s =
     (case s of
        [] \<Rightarrow> (False, [])
      | c # cs \<Rightarrow> if c = CHR ''-'' then (True, cs)
                  else if c = CHR ''+'' then (False, cs) else (False, s))"

definition parse_exponent :: "string \<Rightarrow> int option" where
  "parse_exponent s =
     (case s of
        [] \<Rightarrow> Some 0
      | c # cs \<Rightarrow>
          if c = CHR ''e'' \<or> c = CHR ''E'' then
            (let (neg, r) = split_sign cs in
             case digitpart r of
               None \<Rightarrow> None
             | Some (ds, rest) \<Rightarrow>
                 if rest = [] then Some (if neg then - int_of_digits ds else int_of_digits ds)
                 else None)
          else None)"

definition pow10 :: "int \<Rightarrow> rat" where
  "pow10 e = (if 0 \<le> e then 10 ^ nat e else 1 / 10 ^ nat (- e))"

definition decimal_value :: "string \<Rightarrow> string \<Rightarrow> string \<Rightarrow> rat option" where
  \<comment> \<open>integer digits, fraction digits, and the text after them (an exponent or nothing)\<close>
  "decimal_value ip fp r =
     (case parse_exponent r of
        None \<Rightarrow> None
      | Some e \<Rightarrow> Some (of_int (int_of_digits (ip @ fp)) * pow10 (e - int (length fp))))"

definition parse_decimal :: "string \<Rightarrow> rat option" where
  "parse_decimal s =
     (case digitpart s of
        Some (ip, r) \<Rightarrow>
          (case r of
             [] \<Rightarrow> decimal_value ip [] []
           | c # r' \<Rightarrow>
               if c = CHR ''.'' then
                 (case digitpart r' of
                    Some (fp, r'') \<Rightarrow> decimal_value ip fp r''
                  | None \<Rightarrow> decimal_value ip [] r')
               else decimal_value ip [] r)
      | None \<Rightarrow>
          (case s of
             [] \<Rightarrow> None
           | c # r' \<Rightarrow>
               if c = CHR ''.'' then
                 (case digitpart r' of
                    Some (fp, r'') \<Rightarrow> decimal_value [] fp r''
                  | None \<Rightarrow> None)
               else None))"

text \<open>
  The whitespace that \<open>float\<close> skips around a number is not that of \<open>str.strip()\<close>:
  the conversion replaces the whitespace characters from code point 127 on by a blank
  and then skips blank, tab, line feed, vertical tab, form feed and carriage return. The
  separators \<open>0x1C\<close> to \<open>0x1F\<close>, which \<open>str.strip()\<close> removes, stay and make the
  conversion fail.
\<close>

definition is_float_space :: "char \<Rightarrow> bool" where
  "is_float_space c = (let n = of_char c :: nat in
     (9 \<le> n \<and> n \<le> 13) \<or> n = 32 \<or> n = 133 \<or> n = 160)"

definition float_strip :: "string \<Rightarrow> string" where
  "float_strip s = rev (dropWhile is_float_space (rev (dropWhile is_float_space s)))"

text \<open>
  \<open>py_float s\<close> is \<open>float(s)\<close> for a string \<open>s\<close>: \<open>None\<close> when it raises
  \<open>ValueError\<close>. Surrounding whitespace is skipped, then an optional sign is followed
  by \<open>inf\<close>, \<open>infinity\<close> or \<open>nan\<close> in any case, or by a decimal number with an
  optional exponent, which is rounded to the nearest float.
\<close>

definition py_float :: "string \<Rightarrow> pyfloat option" where
  "py_float s =
     (let (neg, u) = split_sign (float_strip s); l = map to_lower u in
      if l = ''inf'' \<or> l = ''infinity'' then Some (if neg then NInf else PInf)
      else if l = ''nan'' then Some NaN
      else (case parse_decimal u of
              None \<Rightarrow> None
            | Some v \<Rightarrow> Some (fl (if neg then - v else v))))"

subsection \<open>The format \<open>.3f\<close>\<close>

definition digit_char :: "int \<Rightarrow> char" where
  "digit_char n = char_of (48 + n)"

function dec_digits :: "int \<Rightarrow> string" where
  "dec_digits n =
     (if n < 10 then [digit_char n] else dec_digits (n div 10) @ [digit_char (n mod 10)])"
  by pat_completeness auto
termination
  by (relation "measure nat") auto

text \<open>
  Fixed-point formatting with three decimals: the exact value rounded to a multiple of
  \<open>1/1000\<close>, ties to even, with a minus sign for every negative value.
\<close>

fun format_3f :: "pyfloat \<Rightarrow> string" where
  "format_3f (Fin x) =
     (let n = round_half_even (\<bar>x\<bar> * 1000) in
      (if x < 0 then ''-'' else []) @ dec_digits (n div 1000) @ ''.'' @
      [digit_char (n mod 1000 div 100), digit_char (n mod 100 div 10), digit_char (n mod 10)])"
| "format_3f PInf = ''inf''"
| "format_3f NInf = ''-inf''"
| "format_3f NaN = ''nan''"

section \<open>The world outside the program\<close>

text \<open>
  What the program reads from the file system and from the external tools is a parameter
  of the model: \<open>os.path.isfile\<close>, \<open>os.path.isdir\<close>, the text printed by the two
  \<open>ffprobe\<close> queries (\<open>None\<close> when \<open>subprocess.run\<close> raises) and the exit code of an
  \<open>ffmpeg\<close> run (\<open>None\<close> when the process cannot be started).
\<close>

record env =
  isfile :: "string \<Rightarrow> bool"
  isdir :: "string \<Rightarrow> bool"
  ffprobe_codec :: "string \<Rightarrow> string option"
  ffprobe_duration :: "string \<Rightarrow> string option"
  ffmpeg :: "string list \<Rightarrow> int option"

text \<open>The only exception the program raises itself is \<open>ValueError(message)\<close>.\<close>

datatype error = ValueError string

section \<open>Probing (\<open>_get_video_codec\<close>, \<open>_get_duration_seconds\<close>)\<close>

definition get_video_codec :: "env \<Rightarrow> string \<Rightarrow> string option" where
  "get_video_codec env path =
     (case ffprobe_codec env path of
        None \<Rightarrow> None
      | Some out \<Rightarrow> (let codec = strip out in if codec = [] then None else Some codec))"

definition get_duration_seconds :: "env \<Rightarrow> string \<Rightarrow> pyfloat option" where
  "get_duration_seconds env path =
     (case ffprobe_duration env path of
        None \<Rightarrow> None
      | Some out \<Rightarrow> py_float (strip out))"

section \<open>Encoder choice (\<open>_pick_video_encoder\<close>, \<open>_pick_audio_encoder\<close>)\<close>

text \<open>
  Each \<open>for cand in [...]: if cand in encoders: return cand\<close> is \<open>find\<close> on the
  preference list; a loop that finds nothing falls through to the next \<open>if\<close>.
\<close>

definition pick_video_encoder :: "string \<Rightarrow> string set \<Rightarrow> string option" where
  "pick_video_encoder out_fmt encoders =
     (case (if out_fmt \<in> {''mp4'', ''mov'', ''mkv''}
            then find (\<lambda>cand. cand \<in> encoders)
                   [''libx264'', ''libopenh264'', ''h264_v4l2m2m'', ''h264_vaapi'',
                    ''h264_nvenc'', ''mpeg4'']
            else None) of
        Some cand \<Rightarrow> Some cand
      | None \<Rightarrow>
          (case (if out_fmt = ''webm''
                 then find (\<lambda>cand. cand \<in> encoders) [''libvpx-vp9'', ''libvpx'', ''vp9'', ''vp8'']
                 else None) of
             Some cand \<Rightarrow> Some cand
           | None \<Rightarrow> if out_fmt = ''gif'' then Some ''gif'' else None))"

definition pick_audio_encoder :: "string \<Rightarrow> string set \<Rightarrow> string option" where
  "pick_audio_encoder out_fmt encoders =
     (case (if out_fmt \<in> {''mp4'', ''mov'', ''mkv''}
            then find (\<lambda>cand. cand \<in> encoders) [''aac'', ''libfdk_aac'']
            else None) of
        Some cand \<Rightarrow> Some cand
      | None \<Rightarrow>
          (if out_fmt = ''webm''
           then find (\<lambda>cand. cand \<in> encoders) [''libopus'', ''libvorbis'', ''opus'', ''vorbis'']
           else None))"

section \<open>The command planner (\<open>build_command\<close>)\<close>

text \<open>The dictionary \<open>values\<close> that \<open>_run\<close> builds, one field per key.\<close>

record job_values =
  input_path :: string
  output_dir :: string
  output_name :: string
  format :: string
  fps :: string
  trim_enabled :: bool
  trim_start :: "pyfloat option"
  trim_end :: "pyfloat option"
  fps_enabled :: bool
  keep_names :: bool

text \<open>\<open>sep.join(parts)\<close>\<close>

fun join :: "string \<Rightarrow> string list \<Rightarrow> string" where
  "join sep [] = []"
| "join sep [p] = p"
| "join sep (p # q # ps) = p @ sep @ join sep (q # ps)"

text \<open>The message of the decoder check, an f-string around the codec name.\<close>

definition cannot_decode_message :: "string \<Rightarrow> string" where
  "cannot_decode_message codec =
     ''Your FFmpeg build cannot decode '' @ [CHR 0x27] @ codec @ [CHR 0x27] @
     ''. Install a full FFmpeg build or disable trim/FPS change.''"

text \<open>
  \<open>build_command\<close> returns the argument list or the \<open>ValueError\<close> it raises. The
  statements of the source follow each other as nested cases: the input part of the
  command (with the trim check), the filter list (with the two frame-rate checks), the
  decoder check, then the options of the output.
\<close>

definition build_command ::
  "env \<Rightarrow> job_values \<Rightarrow> string \<Rightarrow> string \<Rightarrow> string set \<Rightarrow> string set
     \<Rightarrow> error + string list" where
  "build_command env values in_path out_path encoders decoders =
     (let out_fmt = strip (format values);
          fps_s = strip (fps values)
      in
      if \<not> isfile env in_path then Inl (ValueError ''Input file does not exist.'')
      else if out_fmt = [] then Inl (ValueError ''Output format is required.'')
      else
        (case (if trim_enabled values
               then (case trim_start values of
                       None \<Rightarrow>
                         Inl (ValueError ''Trim start time is required when Trim is enabled.'')
                     | Some start \<Rightarrow>
                         Inr ([''ffmpeg'', ''-y''] @ [''-ss'', format_3f start] @ [''-i'', in_path] @
                              (case trim_end values of
                                 None \<Rightarrow> []
                               | Some end \<Rightarrow>
                                   if f_gt end start then [''-to'', format_3f end] else [])))
               else Inr ([''ffmpeg'', ''-y''] @ [''-i'', in_path])) of
           Inl e \<Rightarrow> Inl e
         | Inr cmd \<Rightarrow>
             (case (if fps_enabled values
                    then (if fps_s = []
                          then Inl (ValueError
                                 ''Target FPS is required when FPS change is enabled.'')
                          else (case py_float fps_s of
                                  None \<Rightarrow> Inl (ValueError ''Target FPS must be a number.'')
                                | Some _ \<Rightarrow> Inr [''fps='' @ fps_s]))
                    else Inr []) of
                Inl e \<Rightarrow> Inl e
              | Inr filters \<Rightarrow>
                  (let codec = get_video_codec env in_path;
                       needs_decode = (filters \<noteq> [] \<or> trim_enabled values \<or> out_fmt = ''gif'')
                   in
                   (case (case codec of
                            None \<Rightarrow> None
                          | Some c \<Rightarrow> if c \<noteq> [] \<and> needs_decode \<and> c \<notin> decoders
                                      then Some c else None) of
                      Some c \<Rightarrow>
                        Inl (ValueError (cannot_decode_message c))
                    | None \<Rightarrow>
                        Inr (cmd @
                          (if out_fmt = ''gif''
                           then (let gif_fps = (if fps_enabled values then fps_s else ''10'');
                                     gif_filters = [''fps='' @ gif_fps, ''scale=640:-1:flags=lanczos'']
                                 in [''-vf'', join '','' gif_filters, ''-an''])
                           else
                             (if filters = [] \<and> \<not> trim_enabled values
                                   \<and> out_fmt \<in> {''mp4'', ''mov'', ''mkv''}
                              then [''-c'', ''copy'']
                              else
                                (if filters \<noteq> [] then [''-filter:v'', join '','' filters] else []) @
                                (case pick_video_encoder out_fmt encoders of
                                   None \<Rightarrow> []
                                 | Some v \<Rightarrow> if v \<noteq> [] then [''-c:v'', v] else []) @
                                (case pick_audio_encoder out_fmt encoders of
                                   None \<Rightarrow> []
                                 | Some a \<Rightarrow> if a \<noteq> [] then [''-c:a'', a] else [])) @
                             (if out_fmt \<in> {''mp4'', ''mov''}
                              then [''-movflags'', ''+faststart''] else [])) @
                          [out_path]))))))"

section \<open>More string operations\<close>

text \<open>
  \<open>contains sub s\<close> is \<open>sub in s\<close>; \<open>split_on sep s\<close> is \<open>s.split(sep)\<close> for a
  separator that is not empty (the program only splits on literals): the pieces between
  the occurrences of \<open>sep\<close>, found from the left and not overlapping. \<open>split_from\<close>
  carries the piece read so far, reversed.
\<close>

fun contains :: "string \<Rightarrow> string \<Rightarrow> bool" where
  "contains sub [] = (sub = [])"
| "contains sub (c # cs) = (take (length sub) (c # cs) = sub \<or> contains sub cs)"

function split_from :: "string \<Rightarrow> string \<Rightarrow> string \<Rightarrow> string list" where
  "split_from sep acc [] = [rev acc]"
| "split_from sep acc (c # cs) =
     (if sep \<noteq> [] \<and> take (length sep) (c # cs) = sep
      then rev acc # split_from sep [] (drop (length sep) (c # cs))
      else split_from sep (c # acc) cs)"
  by pat_completeness auto
termination
  by (relation "measure (\<lambda>(sep, acc, s). length s)") (auto simp: neq_Nil_conv)

definition split_on :: "string \<Rightarrow> string \<Rightarrow> string list" where
  "split_on sep s = split_from sep [] s"

definition endswith :: "string \<Rightarrow> string \<Rightarrow> bool" where
  "endswith s suffix = (length suffix \<le> length s \<and> drop (length s - length suffix) s = suffix)"

section \<open>Progress tracking (\<open>_parse_time_to_seconds\<close>, \<open>App._set_progress_from_line\<close>)\<close>

text \<open>
  \<open>float\<close> raises \<open>ValueError\<close> on a string it cannot read. Its message is never looked
  at by the program.
\<close>

definition float_of_str :: "string \<Rightarrow> error + pyfloat" where
  "float_of_str s =
     (case py_float s of
        None \<Rightarrow> Inl (ValueError ''could not convert string to float'')
      | Some v \<Rightarrow> Inr v)"

text \<open>
  \<open>_parse_time_to_seconds\<close> returns \<open>None\<close> for an empty token, the seconds of
  \<open>H:M:S\<close> or \<open>M:S\<close>, or the float the whole token denotes; it raises what \<open>float\<close>
  raises, the conversions running from left to right.
\<close>

definition parse_time_to_seconds :: "string \<Rightarrow> error + pyfloat option" where
  "parse_time_to_seconds value0 =
     (let v = strip value0 in
      if v = [] then Inr None
      else
        (case split_on '':'' v of
           [h, m, s] \<Rightarrow>
             (case float_of_str h of
                Inl e \<Rightarrow> Inl e
              | Inr fh \<Rightarrow>
                  (case float_of_str m of
                     Inl e \<Rightarrow> Inl e
                   | Inr fm \<Rightarrow>
                       (case float_of_str s of
                          Inl e \<Rightarrow> Inl e
                        | Inr fs \<Rightarrow>
                            Inr (Some (f_add (f_add (f_mul fh (Fin 3600)) (f_mul fm (Fin 60)))
                                         fs)))))
         | [m, s] \<Rightarrow>
             (case float_of_str m of
                Inl e \<Rightarrow> Inl e
              | Inr fm \<Rightarrow>
                  (case float_of_str s of
                     Inl e \<Rightarrow> Inl e
                   | Inr fs \<Rightarrow>
                       Inr (Some (f_add (f_add (f_mul (Fin 0) (Fin 3600)) (f_mul fm (Fin 60)))
                                    fs))))
         | _ \<Rightarrow>
             (case float_of_str v of
                Inl e \<Rightarrow> Inl e
              | Inr f \<Rightarrow> Inr (Some f))))"

text \<open>
  The two fields the tracker reads and writes: \<open>self.total_duration\<close> and the value of
  the progress bar, \<open>self.progress["value"]\<close>.
\<close>

record progress_state =
  total_duration :: "pyfloat option"
  progress_value :: pyfloat

text \<open>
  \<open>duration_token\<close> is \<open>line.split("Duration:")[1].split(",")[0].strip()\<close> and
  \<open>time_token\<close> is \<open>line.split("time=")[1].split(" ")[0].strip()\<close>; \<open>None\<close> stands
  for the \<open>IndexError\<close> of an index out of range.
\<close>

definition token_after :: "string \<Rightarrow> string \<Rightarrow> string \<Rightarrow> string option" where
  "token_after marker stop line =
     (case split_on marker line of
        _ # part # _ \<Rightarrow>
          (case split_on stop part of
             [] \<Rightarrow> None
           | tok # _ \<Rightarrow> Some (strip tok))
      | _ \<Rightarrow> None)"

definition duration_token :: "string \<Rightarrow> string option" where
  "duration_token line = token_after ''Duration:'' '','' line"

definition time_token :: "string \<Rightarrow> string option" where
  "time_token line = token_after ''time='' '' '' line"

text \<open>\<open>max(0, min(100, x))\<close>: each builtin keeps its first argument unless a later one
  compares smaller (for \<open>min\<close>) or greater (for \<open>max\<close>).\<close>

definition clamp_percent :: "pyfloat \<Rightarrow> pyfloat" where
  "clamp_percent x =
     (let m = (if f_lt x (Fin 100) then x else Fin 100)
      in if f_gt m (Fin 0) then m else Fin 0)"

definition set_progress_from_line :: "progress_state \<Rightarrow> string \<Rightarrow> progress_state" where
  "set_progress_from_line st line =
     (let st1 =
            (if contains ''Duration:'' line
             then (case duration_token line of
                     None \<Rightarrow> st\<lparr>total_duration := None\<rparr>
                   | Some dur \<Rightarrow>
                       (case parse_time_to_seconds dur of
                          Inl _ \<Rightarrow> st\<lparr>total_duration := None\<rparr>
                        | Inr d \<Rightarrow> st\<lparr>total_duration := d\<rparr>))
             else st)
      in
      if contains ''time='' line
           \<and> (case total_duration st1 of None \<Rightarrow> False | Some d \<Rightarrow> truthy d)
      then (case time_token line of
              None \<Rightarrow> st1
            | Some t \<Rightarrow>
                (case parse_time_to_seconds t of
                   Inl _ \<Rightarrow> st1
                 | Inr None \<Rightarrow> st1
                 | Inr (Some current) \<Rightarrow>
                     (case f_div current (the (total_duration st1)) of
                        None \<Rightarrow> st1
                      | Some q \<Rightarrow>
                          st1\<lparr>progress_value := clamp_percent (f_mul q (Fin 100))\<rparr>)))
      else st1)"

section \<open>The batch run (\<open>App._build_output_path\<close>, \<open>App._run\<close>)\<close>

text \<open>
  The attributes of \<open>App\<close> that a run reads. The Tk variables are read through \<open>get()\<close>;
  a run is taken to see one value of each.
\<close>

record app =
  input_path_var :: string
  input_list :: "string list"
  output_dir_var :: string
  output_name_var :: string
  format_var :: string
  fps_var :: string
  trim_enabled_var :: bool
  trim_start_sec :: pyfloat
  trim_end_sec :: pyfloat
  fps_enabled_var :: bool
  keep_names_var :: bool
  app_encoders :: "string set"
  app_decoders :: "string set"

text \<open>\<open>os.path.basename\<close>, \<open>os.path.splitext\<close> (its first component) and
  \<open>os.path.join\<close> of two components, on POSIX paths.\<close>

definition basename :: "string \<Rightarrow> string" where
  "basename p = rev (takeWhile (\<lambda>c. c \<noteq> CHR ''/'') (rev p))"

definition splitext_root :: "string \<Rightarrow> string" where
  "splitext_root p =
     (let name = basename p;
          dir = take (length p - length name) p;
          ext = rev (takeWhile (\<lambda>c. c \<noteq> CHR ''.'') (rev name));
          stem = take (length name - length ext - 1) name
      in if CHR ''.'' \<in> set name \<and> (\<exists>c \<in> set stem. c \<noteq> CHR ''.'')
         then dir @ stem else p)"

definition path_join :: "string \<Rightarrow> string \<Rightarrow> string" where
  "path_join a b =
     (if b \<noteq> [] \<and> hd b = CHR ''/'' then b
      else if a = [] \<or> last a = CHR ''/'' then a @ b
      else a @ ''/'' @ b)"

definition build_output_path :: "env \<Rightarrow> app \<Rightarrow> string \<Rightarrow> job_values \<Rightarrow> error + string" where
  "build_output_path env self in_path values =
     (let out_dir = strip (output_dir values);
          out_name = strip (output_name values);
          out_fmt = strip (format values)
      in
      if out_dir = [] then Inl (ValueError ''Choose an output folder.'')
      else if \<not> isdir env out_dir then Inl (ValueError ''Output folder does not exist.'')
      else
        (let out_name1 = (if length (input_list self) > 1 \<and> keep_names values
                          then splitext_root (basename in_path) else out_name)
         in
         if out_name1 = [] then Inl (ValueError ''Output filename is required.'')
         else
           (let out_name2 = (if \<not> endswith out_name1 (''.'' @ out_fmt)
                             then out_name1 @ ''.'' @ out_fmt else out_name1)
            in Inr (path_join out_dir out_name2))))"

text \<open>
  The body of the \<open>try\<close> in \<open>worker\<close>, for one input: the trim bounds are read and
  checked against the probed duration and stored in \<open>values\<close>, then the output path
  and the command are built. It returns the updated \<open>values\<close> with the command, or the
  \<open>ValueError\<close> that the \<open>except\<close> clause catches. The literal \<open>0.01\<close> is the float
  nearest to \<open>1/100\<close>.
\<close>

definition plan_item ::
  "env \<Rightarrow> app \<Rightarrow> job_values \<Rightarrow> string \<Rightarrow> error + (job_values \<times> string list)" where
  "plan_item env self values in_path =
     (case (if trim_enabled values
            then (let start = trim_start_sec self;
                      end0 = trim_end_sec self;
                      duration = get_duration_seconds env in_path;
                      known = (case duration of None \<Rightarrow> False | Some d \<Rightarrow> truthy d)
                  in
                  if known \<and> f_ge start (the duration)
                  then Inl (ValueError ''Trim start must be within the video duration.'')
                  else
                    (let end1 = (if known \<and> f_ge end0 (f_sub (the duration) (fl (1 / 100)))
                                 then None else Some end0);
                         end2 = (case end1 of
                                   None \<Rightarrow> None
                                 | Some e \<Rightarrow>
                                     if f_le e (f_add start (fl (1 / 100))) then None else Some e)
                     in Inr (values\<lparr>trim_start := Some start, trim_end := end2\<rparr>)))
            else Inr values) of
        Inl e \<Rightarrow> Inl e
      | Inr values1 \<Rightarrow>
          (case build_output_path env self in_path values1 of
             Inl e \<Rightarrow> Inl e
           | Inr out_path \<Rightarrow>
               (case build_command env values1 in_path out_path
                       (app_encoders self) (app_decoders self) of
                  Inl e \<Rightarrow> Inl e
                | Inr cmd \<Rightarrow> Inr (values1, cmd))))"

text \<open>
  What a run does that can be seen from outside, in order: message boxes, the reset of
  the progress bar, and \<open>ffmpeg\<close> runs with their exit code (\<open>None\<close> when the process
  could not be started: the exception ends the worker thread). The log lines of a run
  are not part of the trace.
\<close>

datatype event =
  UiMessage string string string
| SetProgress int
| RunFfmpeg "string list" "int option"

fun worker :: "env \<Rightarrow> app \<Rightarrow> job_values \<Rightarrow> string list \<Rightarrow> event list" where
  "worker env self values [] = [UiMessage ''info'' ''Done'' ''All jobs finished.'']"
| "worker env self values (in_path # rest) =
     (case plan_item env self values in_path of
        Inl (ValueError msg) \<Rightarrow> [UiMessage ''error'' ''Input error'' msg]
      | Inr (values1, cmd) \<Rightarrow>
          SetProgress 0 # RunFfmpeg cmd (ffmpeg env cmd) #
          (case ffmpeg env cmd of
             None \<Rightarrow> []
           | Some code \<Rightarrow>
               if code \<noteq> 0
               then [UiMessage ''error'' ''FFmpeg error''
                       ''FFmpeg finished with errors. Check the log.'']
               else worker env self values1 rest))"

definition run :: "env \<Rightarrow> app \<Rightarrow> event list" where
  "run env self =
     (let values = \<lparr>input_path = input_path_var self, output_dir = output_dir_var self,
                     output_name = output_name_var self, format = format_var self,
                     fps = fps_var self, trim_enabled = trim_enabled_var self,
                     trim_start = None, trim_end = None,
                     fps_enabled = fps_enabled_var self, keep_names = keep_names_var self\<rparr>
      in
      if input_list self \<noteq> [] then worker env self values (input_list self)
      else if strip (input_path values) \<noteq> []
        then worker env self values [strip (input_path values)]
      else [UiMessage ''error'' ''Input error'' ''Choose an input file.''])"

text \<open>The \<open>ffmpeg\<close> runs of a trace, with their exit codes.\<close>

fun ffmpeg_runs :: "event list \<Rightarrow> (string list \<times> int option) list" where
  "ffmpeg_runs [] = []"
| "ffmpeg_runs (RunFfmpeg cmd r # evs) = (cmd, r) # ffmpeg_runs evs"
| "ffmpeg_runs (_ # evs) = ffmpeg_runs evs"

section \<open>Preview cache (\<open>App._cache_preview_image\<close>)\<close>

text \<open>
  The cache is the dictionary \<open>self.preview_cache\<close> together with the list
  \<open>self.preview_cache_order\<close>; a key is the pair \<open>(path, int(t * 2))\<close>.
  \<open>tk.PhotoImage(file=path)\<close> is the parameter \<open>photo\<close>: \<open>None\<close> when it raises
  (then the exception leaves the method before anything is stored).
\<close>

type_synonym cache_key = "string \<times> int"

record 'img preview_state =
  preview_cache :: "cache_key \<rightharpoonup> 'img"
  preview_cache_order :: "cache_key list"
  preview_image :: "'img option"

datatype tcl_error = TclError

definition cache_preview_image ::
  "(string \<Rightarrow> 'img option) \<Rightarrow> 'img preview_state \<Rightarrow> cache_key \<Rightarrow> string
     \<Rightarrow> tcl_error + 'img preview_state" where
  "cache_preview_image photo st key path =
     (case photo path of
        None \<Rightarrow> Inl TclError
      | Some img \<Rightarrow>
          (let cache1 = (preview_cache st)(key \<mapsto> img);
               order1 = preview_cache_order st @ [key];
               (cache2, order2) =
                 (if length order1 > 20
                  then (let old = hd order1; order' = tl order1
                        in (if old \<in> dom cache1 then cache1(old := None) else cache1, order'))
                  else (cache1, order1))
           in Inr (st\<lparr>preview_cache := cache2, preview_cache_order := order2,
                       preview_image := Some img\<rparr>)))"

text \<open>
  A sequence of completed preview extractions, delivered one after the other to the
  interface thread. A call that raises leaves the state as it was.
\<close>

fun cache_all ::
  "(string \<Rightarrow> 'img option) \<Rightarrow> 'img preview_state \<Rightarrow> (cache_key \<times> string) list
     \<Rightarrow> 'img preview_state" where
  "cache_all photo st [] = st"
| "cache_all photo st ((key, path) # rest) =
     (case cache_preview_image photo st key path of
        Inl _ \<Rightarrow> cache_all photo st rest
      | Inr st' \<Rightarrow> cache_all photo st' rest)"

definition empty_preview :: "'img preview_state" where
  "empty_preview = \<lparr>preview_cache = Map.empty, preview_cache_order = [], preview_image = None\<rparr>"

definition cache_inv :: "'img preview_state \<Rightarrow> cache_key list \<Rightarrow> bool" where
  "cache_inv st pre \<longleftrightarrow>
     preview_cache_order st = drop (length pre - 20) pre \<and>
     dom (preview_cache st) = set (preview_cache_order st)"

text \<open>Twenty-five distinct keys of one file, used to run the cache on a concrete input.\<close>

definition demo_keys :: "(cache_key \<times> string) list" where
  "demo_keys = map (\<lambda>i. ((''clip.mp4'', int i), ''/tmp/p.png'')) [0..<25]"

section \<open>The planner in the words of the specification\<close>

text \<open>
  The validation order as the specification lists it: the checks in their order, the
  first one that fails giving the error. \<open>input_args\<close> and \<open>output_args\<close> are the
  two parts of a planned command, before and after the input file. They are compared
  with \<open>build_command\<close> below.
\<close>

definition needs_decode :: "job_values \<Rightarrow> bool" where
  "needs_decode values \<longleftrightarrow>
     fps_enabled values \<or> trim_enabled values \<or> strip (format values) = ''gif''"

definition first_failing_check :: "env \<Rightarrow> job_values \<Rightarrow> string \<Rightarrow> string set \<Rightarrow> error option" where
  "first_failing_check env values in_path decoders =
     (if \<not> isfile env in_path then Some (ValueError ''Input file does not exist.'')
      else if strip (format values) = [] then Some (ValueError ''Output format is required.'')
      else if trim_enabled values \<and> trim_start values = None
        then Some (ValueError ''Trim start time is required when Trim is enabled.'')
      else if fps_enabled values \<and> strip (fps values) = []
        then Some (ValueError ''Target FPS is required when FPS change is enabled.'')
      else if fps_enabled values \<and> py_float (strip (fps values)) = None
        then Some (ValueError ''Target FPS must be a number.'')
      else (case get_video_codec env in_path of
              None \<Rightarrow> None
            | Some c \<Rightarrow> if needs_decode values \<and> c \<notin> decoders
                        then Some (ValueError (cannot_decode_message c)) else None))"

definition input_args :: "job_values \<Rightarrow> string \<Rightarrow> string list" where
  "input_args values in_path =
     (if trim_enabled values
      then [''ffmpeg'', ''-y'', ''-ss'', format_3f (the (trim_start values)), ''-i'', in_path] @
           (case trim_end values of
              None \<Rightarrow> []
            | Some e \<Rightarrow> if f_gt e (the (trim_start values)) then [''-to'', format_3f e] else [])
      else [''ffmpeg'', ''-y'', ''-i'', in_path])"

definition output_args :: "job_values \<Rightarrow> string set \<Rightarrow> string list" where
  "output_args values encoders =
     (if strip (format values) = ''gif''
      then [''-vf'',
            ''fps='' @ (if fps_enabled values then strip (fps values) else ''10'') @
              '',scale=640:-1:flags=lanczos'',
            ''-an'']
      else
        (if \<not> fps_enabled values \<and> \<not> trim_enabled values
              \<and> strip (format values) \<in> {''mp4'', ''mov'', ''mkv''}
         then [''-c'', ''copy'']
         else (if fps_enabled values then [''-filter:v'', ''fps='' @ strip (fps values)] else []) @
              (case pick_video_encoder (strip (format values)) encoders of
                 None \<Rightarrow> [] | Some v \<Rightarrow> [''-c:v'', v]) @
              (case pick_audio_encoder (strip (format values)) encoders of
                 None \<Rightarrow> [] | Some a \<Rightarrow> [''-c:a'', a])) @
        (if strip (format values) \<in> {''mp4'', ''mov''} then [''-movflags'', ''+faststart''] else []))"

section \<open>A concrete world and request\<close>

text \<open>
  Three input files, one output folder; the first file is an H.264 video of 10.5 seconds.
  The request converts to MP4 with no trim and no frame-rate change.
\<close>

definition demo_env :: env where
  "demo_env = \<lparr>isfile = (\<lambda>p. p \<in> {''/in/a.mkv'', ''/in/b.mkv'', ''/in/c.mkv''}),
     isdir = (\<lambda>p. p = ''/out''),
     ffprobe_codec = (\<lambda>p. if p = ''/in/a.mkv'' then Some ''h264\<newline>'' else None),
     ffprobe_duration = (\<lambda>p. if p = ''/in/a.mkv'' then Some ''10.5\<newline>'' else None),
     ffmpeg = (\<lambda>cmd. Some 0)\<rparr>"

definition demo_values :: job_values where
  "demo_values = \<lparr>input_path = ''/in/a.mkv'', output_dir = ''/out'', output_name = ''output'',
     format = ''mp4'', fps = '''', trim_enabled = False, trim_start = None, trim_end = None,
     fps_enabled = False, keep_names = False\<rparr>"

text \<open>
  An application state with a batch of three inputs, the second of which does not exist;
  a world in which every duration probe prints zero; a tracker state with a known total
  duration, and the line \<open>ffmpeg\<close> prints for an input of unknown duration.
\<close>

definition demo_app :: app where
  "demo_app = \<lparr>input_path_var = ''/in/a.mkv'',
     input_list = [''/in/a.mkv'', ''/in/missing.mkv'', ''/in/c.mkv''],
     output_dir_var = ''/out'', output_name_var = ''output'', format_var = ''mp4'', fps_var = '''',
     trim_enabled_var = False, trim_start_sec = Fin 0, trim_end_sec = Fin 0,
     fps_enabled_var = False, keep_names_var = True,
     app_encoders = {''libx264'', ''aac''}, app_decoders = {''h264''}\<rparr>"

definition demo_env_zero :: env where
  "demo_env_zero = demo_env\<lparr>ffprobe_duration := (\<lambda>p. Some ''0.000000\<newline>'')\<rparr>"

definition demo_progress :: progress_state where
  "demo_progress = \<lparr>total_duration = Some (Fin 100), progress_value = Fin 50\<rparr>"

definition demo_line :: string where
  "demo_line = ''  Duration: N/A, start: 0.000000, bitrate: N/A''"

text \<open>A duration line whose minutes start with the separator \<open>0x1C\<close>: \<open>strip\<close>
  removes that character, \<open>float\<close> does not skip it.\<close>

definition demo_line_sep :: string where
  "demo_line_sep = '' Duration: 00:'' @ [CHR 0x1C] @ ''2:00.00, start: 0.000000''"

text \<open>A single-file run with trim enabled, from 0 to 5 seconds.\<close>

definition demo_app_trim :: app where
  "demo_app_trim = demo_app\<lparr>input_list := [], trim_enabled_var := True,
      trim_start_sec := Fin 0, trim_end_sec := Fin 5\<rparr>"

section \<open>Properties of the preview cache\<close>

lemma cache_step_inv:
  assumes inv: "cache_inv st pre" and d: "distinct (pre @ [key])" and ph: "photo path = Some img"
  shows "\<exists>st'. cache_preview_image photo st key path = Inr st' \<and> cache_inv st' (pre @ [key])"
proof (cases "length pre < 20")
  case True
  with inv have o: "preview_cache_order st = pre" by (simp add: cache_inv_def)
  with True inv ph show ?thesis
    by (simp add: cache_preview_image_def Let_def cache_inv_def)
next
  case False
  define n where "n = length pre - 20"
  have lp: "length pre = n + 20" using False by (simp add: n_def)
  have o: "preview_cache_order st = drop n pre" and dm: "dom (preview_cache st) = set (drop n pre)"
    using inv by (simp_all add: cache_inv_def n_def)
  have n_lt: "n < length pre" using lp by simp
  then have dn: "drop n pre = pre ! n # drop (Suc n) pre"
    by (simp add: Cons_nth_drop_Suc)
  have dp: "distinct pre" and knp: "key \<notin> set pre" using d by simp_all
  have "distinct (drop n pre)" using dp by simp
  then have hd_notin: "pre ! n \<notin> set (drop (Suc n) pre)" using dn by simp
  have key_ne: "pre ! n \<noteq> key" using knp n_lt by (metis nth_mem)
  have len: "length (drop n pre) = 20" using lp by simp
  have goal_drop: "drop (length (pre @ [key]) - 20) (pre @ [key]) = drop (Suc n) pre @ [key]"
    using lp by simp
  show ?thesis
    using ph o dm dn hd_notin key_ne len goal_drop
    by (auto simp: cache_preview_image_def Let_def cache_inv_def)
qed

lemma cache_all_inv:
  assumes "cache_inv st pre" and "distinct (pre @ map fst kps)"
    and "\<forall>kp \<in> set kps. photo (snd kp) \<noteq> None"
  shows "cache_inv (cache_all photo st kps) (pre @ map fst kps)"
  using assms
proof (induction kps arbitrary: st pre)
  case Nil
  then show ?case by simp
next
  case (Cons kp kps)
  obtain key path where kp: "kp = (key, path)" by (cases kp)
  from Cons.prems(3) kp obtain img where ph: "photo path = Some img" by auto
  from Cons.prems(2) kp have d1: "distinct (pre @ [key])" by auto
  from cache_step_inv[of st pre key photo path img, OF Cons.prems(1) d1 ph] obtain st' where
    s: "cache_preview_image photo st key path = Inr st'" and i: "cache_inv st' (pre @ [key])"
    by blast
  have "cache_inv (cache_all photo st' kps) ((pre @ [key]) @ map fst kps)"
    using Cons.prems kp by (intro Cons.IH[OF i]) auto
  with s kp show ?case by simp
qed

lemma empty_inv: "cache_inv empty_preview []"
  by (simp add: cache_inv_def empty_preview_def)

text \<open>
  Claim C7. Starting from the empty cache, a sequence of insertions with pairwise
  distinct keys (each image loading successfully) leaves in \<open>preview_cache_order\<close>
  exactly the last 20 keys inserted, in insertion order, and the dictionary holds
  exactly those keys: never more than 20 entries, and the keys evicted are the oldest
  ones. For 25 insertions this is 20 entries, the first 5 keys gone.
\<close>

theorem preview_cache_bound:
  assumes "distinct (map fst kps)" and "\<forall>kp \<in> set kps. photo (snd kp) \<noteq> None"
  shows "preview_cache_order (cache_all photo empty_preview kps)
           = drop (length kps - 20) (map fst kps)
       \<and> dom (preview_cache (cache_all photo empty_preview kps))
           = set (drop (length kps - 20) (map fst kps))
       \<and> card (dom (preview_cache (cache_all photo empty_preview kps))) = min 20 (length kps)
       \<and> card (dom (preview_cache (cache_all photo empty_preview kps))) \<le> 20"
proof -
  let ?st = "cache_all photo empty_preview kps"
  have i: "cache_inv ?st (map fst kps)"
    using cache_all_inv[OF empty_inv, of kps photo] assms by simp
  then have o: "preview_cache_order ?st = drop (length kps - 20) (map fst kps)"
    and dm: "dom (preview_cache ?st) = set (preview_cache_order ?st)"
    by (simp_all add: cache_inv_def)
  have "distinct (drop (length kps - 20) (map fst kps))" using assms(1) by simp
  then have "card (set (drop (length kps - 20) (map fst kps)))
      = length (drop (length kps - 20) (map fst kps))"
    by (rule distinct_card)
  then show ?thesis using o dm by auto
qed

theorem preview_cache_bound_witness:
  "distinct (map fst demo_keys) \<and> length demo_keys = 25
   \<and> preview_cache_order (cache_all (\<lambda>_. Some (0::nat)) empty_preview demo_keys)
       = map (\<lambda>i. (''clip.mp4'', int i)) [5..<25]
   \<and> dom (preview_cache (cache_all (\<lambda>_. Some (0::nat)) empty_preview demo_keys))
       = set (map (\<lambda>i. (''clip.mp4'', int i)) [5..<25])
   \<and> card (dom (preview_cache (cache_all (\<lambda>_. Some (0::nat)) empty_preview demo_keys))) = 20"
proof -
  have d: "distinct (map fst demo_keys)"
    by (simp add: demo_keys_def distinct_map inj_on_def)
  have l: "length demo_keys = 25" by (simp add: demo_keys_def)
  have p: "\<forall>kp \<in> set demo_keys. (\<lambda>_. Some (0::nat)) (snd kp) \<noteq> None" by simp
  have dr: "drop 5 (map fst demo_keys) = map (\<lambda>i. (''clip.mp4'', int i)) [5..<25]"
    by (simp add: demo_keys_def drop_map)
  show ?thesis
    using preview_cache_bound[OF d p] d l dr by simp
qed

section \<open>Properties of the command planner\<close>

lemma strip_demo: "strip ''mp4'' = ''mp4''" "strip [] = []" "strip ''gif'' = ''gif''"
  "strip ''h264\<newline>'' = ''h264''" "strip ''30'' = ''30''" "strip ''abc'' = ''abc''"
  by (simp_all add: strip_def is_space_def)

text \<open>
  Claim C1. A request with trim and frame-rate change disabled, an output format that is
  \<open>mp4\<close>, \<open>mov\<close> or \<open>mkv\<close> (after \<open>strip\<close>, so not empty) and an existing input file
  is planned as a stream copy: the command is \<open>ffmpeg -y -i <input> -c copy\<close>, followed
  by \<open>-movflags +faststart\<close> for \<open>mp4\<close> and \<open>mov\<close>, and the output path. None of the
  options the planner puts between the two paths is \<open>-c:v\<close>, \<open>-c:a\<close> or \<open>-filter:v\<close>.
\<close>

theorem stream_copy_fast_path:
  assumes "\<not> trim_enabled values" and "\<not> fps_enabled values"
    and "strip (format values) \<in> {''mp4'', ''mov'', ''mkv''}"
    and "isfile env in_path"
  shows "build_command env values in_path out_path encoders decoders =
           Inr ([''ffmpeg'', ''-y'', ''-i'', in_path] @
                ([''-c'', ''copy''] @
                 (if strip (format values) \<in> {''mp4'', ''mov''}
                  then [''-movflags'', ''+faststart''] else [])) @
                [out_path])
       \<and> {''-c:v'', ''-c:a'', ''-filter:v''} \<inter>
           set ([''-c'', ''copy''] @
                (if strip (format values) \<in> {''mp4'', ''mov''}
                 then [''-movflags'', ''+faststart''] else [])) = {}"
  using assms
  by (auto simp: build_command_def Let_def split: option.splits)

theorem stream_copy_fast_path_witness:
  "\<not> trim_enabled demo_values \<and> \<not> fps_enabled demo_values
   \<and> strip (format demo_values) = ''mp4'' \<and> isfile demo_env ''/in/a.mkv''
   \<and> build_command demo_env demo_values ''/in/a.mkv'' ''/out/output.mp4'' {''libx264'', ''aac''} {}
       = Inr [''ffmpeg'', ''-y'', ''-i'', ''/in/a.mkv'', ''-c'', ''copy'',
              ''-movflags'', ''+faststart'', ''/out/output.mp4'']"
  using stream_copy_fast_path[of demo_values demo_env "''/in/a.mkv''" "''/out/output.mp4''"
      "{''libx264'', ''aac''}" "{}"]
  by (simp add: demo_values_def demo_env_def strip_demo)

lemma get_video_codec_nonempty: "get_video_codec env p = Some c \<Longrightarrow> c \<noteq> []"
  by (auto simp: get_video_codec_def Let_def split: option.splits if_splits)

lemma pick_video_encoder_range:
  "pick_video_encoder f encs = Some v \<Longrightarrow>
     v \<in> {''libx264'', ''libopenh264'', ''h264_v4l2m2m'', ''h264_vaapi'', ''h264_nvenc'',
          ''mpeg4'', ''libvpx-vp9'', ''libvpx'', ''vp9'', ''vp8'', ''gif''}"
  by (auto simp: pick_video_encoder_def split: option.splits if_splits)

lemma pick_audio_encoder_range:
  "pick_audio_encoder f encs = Some a \<Longrightarrow>
     a \<in> {''aac'', ''libfdk_aac'', ''libopus'', ''libvorbis'', ''opus'', ''vorbis''}"
  by (auto simp: pick_audio_encoder_def split: option.splits if_splits)

lemma video_part:
  "(case pick_video_encoder f encs of None \<Rightarrow> [] | Some v \<Rightarrow> if v \<noteq> [] then [''-c:v'', v] else [])
     = (case pick_video_encoder f encs of None \<Rightarrow> [] | Some v \<Rightarrow> [''-c:v'', v])"
  by (auto split: option.splits dest!: pick_video_encoder_range)

lemma audio_part:
  "(case pick_audio_encoder f encs of None \<Rightarrow> [] | Some a \<Rightarrow> if a \<noteq> [] then [''-c:a'', a] else [])
     = (case pick_audio_encoder f encs of None \<Rightarrow> [] | Some a \<Rightarrow> [''-c:a'', a])"
  by (auto split: option.splits dest!: pick_audio_encoder_range)

lemma build_command_flat:
  "build_command env values in_path out_path encoders decoders =
     (case first_failing_check env values in_path decoders of
        Some e \<Rightarrow> Inl e
      | None \<Rightarrow> Inr (input_args values in_path @ output_args values encoders @ [out_path]))"
proof (cases "get_video_codec env in_path")
  case None
  then show ?thesis
    unfolding build_command_def first_failing_check_def input_args_def output_args_def
      needs_decode_def Let_def video_part audio_part
    by (simp split: option.splits)
next
  case (Some c)
  then have "c \<noteq> []" by (rule get_video_codec_nonempty)
  with Some show ?thesis
    unfolding build_command_def first_failing_check_def input_args_def output_args_def
      needs_decode_def Let_def video_part audio_part
    by (simp split: option.splits)
qed

lemma py_float_demo: "py_float ''30'' = Some (Fin 30)" "py_float ''abc'' = None"
  by code_simp+

lemma get_video_codec_demo: "get_video_codec demo_env ''/in/a.mkv'' = Some ''h264''"
  by (simp add: get_video_codec_def demo_env_def strip_demo)

lemma pick_encoder_not_to:
  "pick_video_encoder f encs \<noteq> Some ''-to''" "pick_audio_encoder f encs \<noteq> Some ''-to''"
  using pick_video_encoder_range[of f encs "''-to''"] pick_audio_encoder_range[of f encs "''-to''"]
  by auto

lemma to_notin_output_args: "''-to'' \<notin> set (output_args values encoders)"
  using pick_encoder_not_to[of "strip (format values)" encoders]
  by (auto simp: output_args_def split: option.splits)

lemma audio_notin_gif_args:
  "strip (format values) = ''gif'' \<Longrightarrow> ''-c:a'' \<notin> set (output_args values encoders)"
  by (simp add: output_args_def)

lemma f_le_not_gt: "f_le e s \<Longrightarrow> \<not> f_gt e s"
  unfolding f_gt_def by (cases e; cases s) auto

text \<open>
  Claim C6. \<open>build_command\<close> fails exactly with the error of the first failing check
  of \<open>first_failing_check\<close>, which lists the checks in the order of the specification:
  (1) the input file exists, (2) the output format is not empty, (3) the trim start is
  present when trim is enabled, (4) the target frame rate is present and numeric when the
  frame-rate change is enabled, (5) the decoder check; when no check fails it returns a
  command. In particular a request that passes checks 1 to 3, has the frame-rate change
  enabled and a target that \<open>float\<close> rejects (the empty string included) fails with
  one of the two frame-rate errors.
\<close>

theorem validation_order:
  "(case first_failing_check env values in_path decoders of
      Some e \<Rightarrow> build_command env values in_path out_path encoders decoders = Inl e
    | None \<Rightarrow> (\<exists>cmd. build_command env values in_path out_path encoders decoders = Inr cmd))
   \<and> (isfile env in_path \<and> strip (format values) \<noteq> []
        \<and> (trim_enabled values \<longrightarrow> trim_start values \<noteq> None)
        \<and> fps_enabled values \<and> py_float (strip (fps values)) = None
      \<longrightarrow> build_command env values in_path out_path encoders decoders =
            Inl (ValueError (if strip (fps values) = []
                             then ''Target FPS is required when FPS change is enabled.''
                             else ''Target FPS must be a number.'')))"
  by (auto simp: build_command_flat first_failing_check_def split: option.splits)

theorem validation_order_witness:
  "isfile demo_env ''/in/a.mkv'' \<and> strip (format demo_values) \<noteq> []
   \<and> py_float (strip ''abc'') = None
   \<and> first_failing_check demo_env (demo_values\<lparr>fps_enabled := True, fps := ''abc''\<rparr>)
        ''/in/a.mkv'' {} = Some (ValueError ''Target FPS must be a number.'')
   \<and> build_command demo_env (demo_values\<lparr>fps_enabled := True, fps := ''abc''\<rparr>)
        ''/in/a.mkv'' ''/out/output.mp4'' {''libx264'', ''aac''} {}
      = Inl (ValueError ''Target FPS must be a number.'')"
  using validation_order[of demo_env "demo_values\<lparr>fps_enabled := True, fps := ''abc''\<rparr>"
      "''/in/a.mkv''" "''/out/output.mp4''" "{''libx264'', ''aac''}" "{}"]
  by (simp add: first_failing_check_def demo_env_def demo_values_def strip_demo py_float_demo)

text \<open>
  Claim C3. When a full decode is needed (frame-rate change enabled, trim enabled, or
  \<open>gif\<close> output) and the probed codec is known and not in the decoder set, planning
  always fails with a \<open>ValueError\<close>; the checks before the decoder check come first
  (claim C6), and when they pass the error is the one whose message quotes the codec.
  When the codec is unknown, or is in the decoder set, or no decode is needed, planning
  never fails with that error. The case of the specification (codec \<open>h264\<close>, a decoder
  set without it, frame-rate change to 30) is the concrete instance after the theorem.
\<close>

theorem decoder_check:
  "(((fps_enabled values \<or> trim_enabled values \<or> strip (format values) = ''gif'')
      \<and> get_video_codec env in_path = Some c \<and> c \<notin> decoders)
    \<longrightarrow> (\<exists>msg. build_command env values in_path out_path encoders decoders
                 = Inl (ValueError msg))
       \<and> (isfile env in_path \<and> strip (format values) \<noteq> []
            \<and> (trim_enabled values \<longrightarrow> trim_start values \<noteq> None)
            \<and> (fps_enabled values \<longrightarrow> py_float (strip (fps values)) \<noteq> None)
          \<longrightarrow> build_command env values in_path out_path encoders decoders
               = Inl (ValueError (''Your FFmpeg build cannot decode '' @ [CHR 0x27] @ c @
                   [CHR 0x27] @
                   ''. Install a full FFmpeg build or disable trim/FPS change.''))))
   \<and> (\<not> ((fps_enabled values \<or> trim_enabled values \<or> strip (format values) = ''gif'')
          \<and> (\<exists>c. get_video_codec env in_path = Some c \<and> c \<notin> decoders))
      \<longrightarrow> (\<forall>c'. build_command env values in_path out_path encoders decoders
               \<noteq> Inl (ValueError (cannot_decode_message c'))))"
proof -
  have a: "py_float [] = None" by code_simp
  show ?thesis
    by (auto simp: build_command_flat first_failing_check_def needs_decode_def
        cannot_decode_message_def a split: option.splits)
qed

theorem decoder_check_witness:
  "fps_enabled (demo_values\<lparr>fps_enabled := True, fps := ''30''\<rparr>)
   \<and> get_video_codec demo_env ''/in/a.mkv'' = Some ''h264'' \<and> ''h264'' \<notin> {''mpeg4''}
   \<and> build_command demo_env (demo_values\<lparr>fps_enabled := True, fps := ''30''\<rparr>)
        ''/in/a.mkv'' ''/out/output.mp4'' {''libx264'', ''aac''} {''mpeg4''}
      = Inl (ValueError (''Your FFmpeg build cannot decode '' @ [CHR 0x27] @ ''h264'' @
          [CHR 0x27] @ ''. Install a full FFmpeg build or disable trim/FPS change.''))"
  using decoder_check[of "demo_values\<lparr>fps_enabled := True, fps := ''30''\<rparr>" demo_env
      "''/in/a.mkv''" "''h264''" "{''mpeg4''}" "''/out/output.mp4''" "{''libx264'', ''aac''}"]
    get_video_codec_demo
  by (simp add: demo_values_def strip_demo py_float_demo) (simp add: demo_env_def)

text \<open>
  Claim C5. A planned command of a trim-enabled request starts with
  \<open>ffmpeg -y -ss <start> -i <input>\<close>, the start written with three decimals, so the
  seek comes before the input. It continues with \<open>-to <end>\<close> exactly when an end is
  present and \<open>end > start\<close>; what follows up to the output path never contains
  \<open>-to\<close>. An end with \<open>end <= start\<close> is never greater than the start, so it is
  dropped.
\<close>

theorem trim_seek_before_input:
  assumes "build_command env values in_path out_path encoders decoders = Inr cmd"
    and "trim_enabled values"
  shows "\<exists>s rest. trim_start values = Some s
       \<and> cmd = [''ffmpeg'', ''-y'', ''-ss'', format_3f s, ''-i'', in_path] @
               (case trim_end values of
                  None \<Rightarrow> []
                | Some e \<Rightarrow> if f_gt e s then [''-to'', format_3f e] else []) @
               rest @ [out_path]
       \<and> ''-to'' \<notin> set rest
       \<and> (\<forall>e. trim_end values = Some e \<and> f_le e s \<longrightarrow> \<not> f_gt e s)"
proof -
  from assms obtain s where s: "trim_start values = Some s"
    by (auto simp: build_command_flat first_failing_check_def split: option.splits if_splits)
  from assms have "cmd = input_args values in_path @ output_args values encoders @ [out_path]"
    by (auto simp: build_command_flat split: option.splits)
  with s assms(2) have "cmd = [''ffmpeg'', ''-y'', ''-ss'', format_3f s, ''-i'', in_path] @
               (case trim_end values of
                  None \<Rightarrow> []
                | Some e \<Rightarrow> if f_gt e s then [''-to'', format_3f e] else []) @
               output_args values encoders @ [out_path]"
    unfolding input_args_def by (cases "trim_end values") simp_all
  with s to_notin_output_args[of "values" encoders] f_le_not_gt show ?thesis
    by blast
qed

theorem trim_seek_before_input_witness:
  "build_command demo_env
     (demo_values\<lparr>format := ''webm'', trim_enabled := True, trim_start := Some (Fin (3 / 2)),
        trim_end := Some (Fin 4)\<rparr>)
     ''/in/a.mkv'' ''/out/output.webm'' {''libvpx'', ''vorbis''} {''h264''}
   = Inr [''ffmpeg'', ''-y'', ''-ss'', ''1.500'', ''-i'', ''/in/a.mkv'', ''-to'', ''4.000'',
          ''-c:v'', ''libvpx'', ''-c:a'', ''vorbis'', ''/out/output.webm'']
   \<and> build_command demo_env
     (demo_values\<lparr>format := ''webm'', trim_enabled := True, trim_start := Some (Fin (3 / 2)),
        trim_end := Some (Fin 1)\<rparr>)
     ''/in/a.mkv'' ''/out/output.webm'' {''libvpx'', ''vorbis''} {''h264''}
   = Inr [''ffmpeg'', ''-y'', ''-ss'', ''1.500'', ''-i'', ''/in/a.mkv'',
          ''-c:v'', ''libvpx'', ''-c:a'', ''vorbis'', ''/out/output.webm'']"
proof -
  have a: "build_command demo_env
     (demo_values\<lparr>format := ''webm'', trim_enabled := True, trim_start := Some (Fin (3 / 2)),
        trim_end := Some (Fin 4)\<rparr>)
     ''/in/a.mkv'' ''/out/output.webm'' {''libvpx'', ''vorbis''} {''h264''}
   = Inr [''ffmpeg'', ''-y'', ''-ss'', ''1.500'', ''-i'', ''/in/a.mkv'', ''-to'', ''4.000'',
          ''-c:v'', ''libvpx'', ''-c:a'', ''vorbis'', ''/out/output.webm'']"
    by code_simp
  have b: "build_command demo_env
     (demo_values\<lparr>format := ''webm'', trim_enabled := True, trim_start := Some (Fin (3 / 2)),
        trim_end := Some (Fin 1)\<rparr>)
     ''/in/a.mkv'' ''/out/output.webm'' {''libvpx'', ''vorbis''} {''h264''}
   = Inr [''ffmpeg'', ''-y'', ''-ss'', ''1.500'', ''-i'', ''/in/a.mkv'',
          ''-c:v'', ''libvpx'', ''-c:a'', ''vorbis'', ''/out/output.webm'']"
    by code_simp
  from trim_seek_before_input[OF a] a b show ?thesis
    by (simp add: demo_values_def)
qed

text \<open>
  Claim C8. A planned command for \<open>gif\<close> output consists of the input part, then
  \<open>-vf fps=<F>,scale=640:-1:flags=lanczos -an\<close> and the output path, where \<open>F\<close> is
  the requested frame rate when the frame-rate change is enabled and \<open>10\<close> otherwise.
  No \<open>-c:a\<close> follows the input part.
\<close>

theorem gif_filter_chain:
  assumes "build_command env values in_path out_path encoders decoders = Inr cmd"
    and "strip (format values) = ''gif''"
  shows "\<exists>inp. cmd = inp @
             [''-vf'',
              ''fps='' @ (if fps_enabled values then strip (fps values) else ''10'') @
                '',scale=640:-1:flags=lanczos'',
              ''-an'', out_path]
           \<and> inp = (if trim_enabled values
                    then [''ffmpeg'', ''-y'', ''-ss'', format_3f (the (trim_start values)),
                          ''-i'', in_path] @
                         (case trim_end values of
                            None \<Rightarrow> []
                          | Some e \<Rightarrow> if f_gt e (the (trim_start values))
                                      then [''-to'', format_3f e] else [])
                    else [''ffmpeg'', ''-y'', ''-i'', in_path])
           \<and> ''-c:a'' \<notin> set (drop (length inp) (butlast cmd))"
proof -
  from assms(1) have "cmd = input_args values in_path @ output_args values encoders @ [out_path]"
    by (auto simp: build_command_flat split: option.splits)
  with assms(2) show ?thesis
    by (simp add: input_args_def output_args_def butlast_append)
qed

theorem gif_filter_chain_witness:
  "build_command demo_env (demo_values\<lparr>format := ''gif''\<rparr>) ''/in/a.mkv'' ''/out/output.gif''
       {''libx264'', ''aac''} {''h264''}
     = Inr [''ffmpeg'', ''-y'', ''-i'', ''/in/a.mkv'', ''-vf'',
            ''fps=10,scale=640:-1:flags=lanczos'', ''-an'', ''/out/output.gif'']
   \<and> build_command demo_env (demo_values\<lparr>format := ''gif'', fps_enabled := True, fps := ''30''\<rparr>)
       ''/in/a.mkv'' ''/out/output.gif'' {''libx264'', ''aac''} {''h264''}
     = Inr [''ffmpeg'', ''-y'', ''-i'', ''/in/a.mkv'', ''-vf'',
            ''fps=30,scale=640:-1:flags=lanczos'', ''-an'', ''/out/output.gif'']"
proof -
  have a: "build_command demo_env (demo_values\<lparr>format := ''gif''\<rparr>) ''/in/a.mkv''
      ''/out/output.gif'' {''libx264'', ''aac''} {''h264''}
     = Inr [''ffmpeg'', ''-y'', ''-i'', ''/in/a.mkv'', ''-vf'',
            ''fps=10,scale=640:-1:flags=lanczos'', ''-an'', ''/out/output.gif'']"
    by (simp add: build_command_flat first_failing_check_def input_args_def output_args_def
        needs_decode_def demo_env_def demo_values_def strip_demo get_video_codec_def)
  have b: "build_command demo_env (demo_values\<lparr>format := ''gif'', fps_enabled := True, fps := ''30''\<rparr>)
       ''/in/a.mkv'' ''/out/output.gif'' {''libx264'', ''aac''} {''h264''}
     = Inr [''ffmpeg'', ''-y'', ''-i'', ''/in/a.mkv'', ''-vf'',
            ''fps=30,scale=640:-1:flags=lanczos'', ''-an'', ''/out/output.gif'']"
    by (simp add: build_command_flat first_failing_check_def input_args_def output_args_def
        needs_decode_def demo_env_def demo_values_def strip_demo get_video_codec_def py_float_demo)
  from gif_filter_chain[OF a] gif_filter_chain[OF b] a b show ?thesis
    by (simp add: demo_values_def strip_demo)
qed

section \<open>Properties of the progress tracker\<close>

lemma demo_line_token:
  "contains ''Duration:'' demo_line" "duration_token demo_line = Some ''N/A''"
  "parse_time_to_seconds ''N/A'' = Inl (ValueError ''could not convert string to float'')"
  by code_simp+

text \<open>
  Claim C2, as stated, fails: a duration announcement whose token does not parse does not
  leave the state unchanged. With a total duration of 100 seconds known, the line
  \<open>Duration: N/A, ...\<close> sets the total duration to \<open>None\<close>.
\<close>

theorem malformed_duration_keeps_state_counterexample:
  "contains ''Duration:'' demo_line \<and> duration_token demo_line = Some ''N/A''
   \<and> parse_time_to_seconds ''N/A'' = Inl (ValueError ''could not convert string to float'')
   \<and> total_duration demo_progress = Some (Fin 100)
   \<and> total_duration (set_progress_from_line demo_progress demo_line) = None
   \<and> set_progress_from_line demo_progress demo_line \<noteq> demo_progress"
  by (simp add: demo_line_token set_progress_from_line_def demo_progress_def)

text \<open>
  Claim C2, amended. When a line contains \<open>Duration:\<close> and its duration token does
  not parse to a number (\<open>float\<close> raises, or the token is empty), the tracker sets
  the total duration to \<open>None\<close> and changes nothing else: the progress value keeps
  its prior value, and no exception leaves the method.
\<close>

theorem malformed_duration_resets_total:
  assumes "contains ''Duration:'' line" and "duration_token line = Some tok"
    and "\<forall>d. parse_time_to_seconds tok \<noteq> Inr (Some d)"
  shows "set_progress_from_line st line = st\<lparr>total_duration := None\<rparr>"
  using assms
  by (auto simp: set_progress_from_line_def Let_def split: sum.splits option.splits)

lemma demo_line_sep_token:
  "contains ''Duration:'' demo_line_sep"
  "duration_token demo_line_sep = Some (''00:'' @ [CHR 0x1C] @ ''2:00.00'')"
  "parse_time_to_seconds (''00:'' @ [CHR 0x1C] @ ''2:00.00'')
     = Inl (ValueError ''could not convert string to float'')"
  by code_simp+

theorem malformed_duration_resets_total_witness:
  "contains ''Duration:'' demo_line \<and> duration_token demo_line = Some ''N/A''
   \<and> set_progress_from_line demo_progress demo_line
       = \<lparr>total_duration = None, progress_value = Fin 50\<rparr>
   \<and> contains ''Duration:'' demo_line_sep
   \<and> duration_token demo_line_sep = Some (''00:'' @ [CHR 0x1C] @ ''2:00.00'')
   \<and> set_progress_from_line demo_progress demo_line_sep
       = \<lparr>total_duration = None, progress_value = Fin 50\<rparr>"
proof -
  have p1: "\<forall>d. parse_time_to_seconds ''N/A'' \<noteq> Inr (Some d)"
    by (simp add: demo_line_token)
  have p2: "\<forall>d. parse_time_to_seconds (''00:'' @ [CHR 0x1C] @ ''2:00.00'') \<noteq> Inr (Some d)"
    by (simp only: demo_line_sep_token) simp
  from malformed_duration_resets_total[OF demo_line_token(1) demo_line_token(2) p1,
      of demo_progress]
    malformed_duration_resets_total[OF demo_line_sep_token(1) demo_line_sep_token(2) p2,
      of demo_progress]
    demo_line_token demo_line_sep_token
  show ?thesis by (simp add: demo_progress_def)
qed

section \<open>Properties of the batch run\<close>

lemma done_in_worker:
  "UiMessage ''info'' ''Done'' ''All jobs finished.'' \<in> set (worker env self vals inputs)
   \<Longrightarrow> length (ffmpeg_runs (worker env self vals inputs)) = length inputs
       \<and> (\<forall>r \<in> set (ffmpeg_runs (worker env self vals inputs)). snd r = Some 0)"
proof (induction inputs arbitrary: vals)
  case Nil
  then show ?case by simp
next
  case (Cons a inputs)
  show ?case
  proof (cases "plan_item env self vals a")
    case (Inl e)
    with Cons.prems show ?thesis by (cases e) auto
  next
    case (Inr p)
    obtain v1 cmd where p: "p = (v1, cmd)" by (cases p)
    show ?thesis
    proof (cases "ffmpeg env cmd")
      case None
      with Inr p Cons.prems show ?thesis by auto
    next
      case (Some code)
      show ?thesis
      proof (cases "code = 0")
        case True
        with Inr p Some Cons.prems
        have "UiMessage ''info'' ''Done'' ''All jobs finished.'' \<in> set (worker env self v1 inputs)"
          by auto
        from Cons.IH[OF this] Inr p Some True show ?thesis by auto
      next
        case False
        with Inr p Some Cons.prems show ?thesis by auto
      qed
    qed
  qed
qed

text \<open>
  Claim C4. The worker takes the inputs in order and stops at the first failure. For a
  batch whose first input is planned and runs with exit code 0 and whose second input
  fails validation, the trace is: progress reset and the run of the first command, then
  the single error message of the second input; whatever follows the second input is
  neither planned nor run. The same holds at any position: a planning error ends the run
  with its message, a non-zero exit code ends it with the FFmpeg error message, and only
  exit code 0 lets the worker go on with the rest. The message \<open>Done\<close> is in the trace
  only if there is one \<open>ffmpeg\<close> run per input and every run exited with code 0.
\<close>

theorem batch_stops_at_first_failure:
  "(plan_item env self vals a = Inr (v1, cmd) \<and> ffmpeg env cmd = Some 0
      \<and> plan_item env self v1 b = Inl (ValueError msg)
    \<longrightarrow> worker env self vals (a # b # rest)
          = [SetProgress 0, RunFfmpeg cmd (Some 0), UiMessage ''error'' ''Input error'' msg])
   \<and> (plan_item env self vals a = Inl (ValueError msg)
    \<longrightarrow> worker env self vals (a # rest) = [UiMessage ''error'' ''Input error'' msg])
   \<and> (plan_item env self vals a = Inr (v1, cmd) \<and> ffmpeg env cmd = Some code \<and> code \<noteq> 0
    \<longrightarrow> worker env self vals (a # rest)
          = [SetProgress 0, RunFfmpeg cmd (Some code),
             UiMessage ''error'' ''FFmpeg error'' ''FFmpeg finished with errors. Check the log.''])
   \<and> (plan_item env self vals a = Inr (v1, cmd) \<and> ffmpeg env cmd = Some 0
    \<longrightarrow> worker env self vals (a # rest)
          = SetProgress 0 # RunFfmpeg cmd (Some 0) # worker env self v1 rest)
   \<and> (UiMessage ''info'' ''Done'' ''All jobs finished.'' \<in> set (worker env self vals inputs)
    \<longrightarrow> length (ffmpeg_runs (worker env self vals inputs)) = length inputs
        \<and> (\<forall>r \<in> set (ffmpeg_runs (worker env self vals inputs)). snd r = Some 0))"
  using done_in_worker[of env self vals inputs] by auto

lemma demo_plan:
  "plan_item demo_env demo_app (demo_values\<lparr>keep_names := True\<rparr>) ''/in/a.mkv''
     = Inr (demo_values\<lparr>keep_names := True\<rparr>,
            [''ffmpeg'', ''-y'', ''-i'', ''/in/a.mkv'', ''-c'', ''copy'',
             ''-movflags'', ''+faststart'', ''/out/a.mp4''])"
  "plan_item demo_env demo_app (demo_values\<lparr>keep_names := True\<rparr>) ''/in/missing.mkv''
     = Inl (ValueError ''Input file does not exist.'')"
  by code_simp+

theorem batch_stops_at_first_failure_witness:
  "plan_item demo_env demo_app (demo_values\<lparr>keep_names := True\<rparr>) ''/in/a.mkv''
     = Inr (demo_values\<lparr>keep_names := True\<rparr>,
            [''ffmpeg'', ''-y'', ''-i'', ''/in/a.mkv'', ''-c'', ''copy'',
             ''-movflags'', ''+faststart'', ''/out/a.mp4''])
   \<and> plan_item demo_env demo_app (demo_values\<lparr>keep_names := True\<rparr>) ''/in/missing.mkv''
     = Inl (ValueError ''Input file does not exist.'')
   \<and> worker demo_env demo_app (demo_values\<lparr>keep_names := True\<rparr>)
       [''/in/a.mkv'', ''/in/missing.mkv'', ''/in/c.mkv'']
     = [SetProgress 0,
        RunFfmpeg [''ffmpeg'', ''-y'', ''-i'', ''/in/a.mkv'', ''-c'', ''copy'',
                   ''-movflags'', ''+faststart'', ''/out/a.mp4''] (Some 0),
        UiMessage ''error'' ''Input error'' ''Input file does not exist.'']
   \<and> run demo_env demo_app
     = [SetProgress 0,
        RunFfmpeg [''ffmpeg'', ''-y'', ''-i'', ''/in/a.mkv'', ''-c'', ''copy'',
                   ''-movflags'', ''+faststart'', ''/out/a.mp4''] (Some 0),
        UiMessage ''error'' ''Input error'' ''Input file does not exist.'']"
proof -
  have f: "ffmpeg demo_env [''ffmpeg'', ''-y'', ''-i'', ''/in/a.mkv'', ''-c'', ''copy'',
             ''-movflags'', ''+faststart'', ''/out/a.mp4''] = Some 0"
    by (simp add: demo_env_def)
  have v: "\<lparr>input_path = input_path_var demo_app, output_dir = output_dir_var demo_app,
      output_name = output_name_var demo_app, format = format_var demo_app,
      fps = fps_var demo_app, trim_enabled = trim_enabled_var demo_app,
      trim_start = None, trim_end = None,
      fps_enabled = fps_enabled_var demo_app, keep_names = keep_names_var demo_app\<rparr>
      = demo_values\<lparr>keep_names := True\<rparr>"
    by (simp add: demo_app_def demo_values_def)
  have w: "worker demo_env demo_app (demo_values\<lparr>keep_names := True\<rparr>)
       [''/in/a.mkv'', ''/in/missing.mkv'', ''/in/c.mkv'']
     = [SetProgress 0,
        RunFfmpeg [''ffmpeg'', ''-y'', ''-i'', ''/in/a.mkv'', ''-c'', ''copy'',
                   ''-movflags'', ''+faststart'', ''/out/a.mp4''] (Some 0),
        UiMessage ''error'' ''Input error'' ''Input file does not exist.'']"
    using batch_stops_at_first_failure[of demo_env demo_app "demo_values\<lparr>keep_names := True\<rparr>"
        "''/in/a.mkv''" "demo_values\<lparr>keep_names := True\<rparr>"
        "[''ffmpeg'', ''-y'', ''-i'', ''/in/a.mkv'', ''-c'', ''copy'',
             ''-movflags'', ''+faststart'', ''/out/a.mp4'']" "''/in/missing.mkv''"
        "''Input file does not exist.''" "[''/in/c.mkv'']"]
      demo_plan f by blast
  have il: "input_list demo_app = [''/in/a.mkv'', ''/in/missing.mkv'', ''/in/c.mkv'']"
    by (simp add: demo_app_def)
  have "run demo_env demo_app = worker demo_env demo_app (demo_values\<lparr>keep_names := True\<rparr>)
       [''/in/a.mkv'', ''/in/missing.mkv'', ''/in/c.mkv'']"
    unfolding run_def Let_def v il by simp
  with w demo_plan show ?thesis by simp
qed


lemma zero_duration_probe: "get_duration_seconds demo_env_zero ''/in/a.mkv'' = Some (Fin 0)"
  by code_simp

lemma zero_duration_run:
  "run demo_env_zero demo_app_trim =
     [SetProgress 0,
      RunFfmpeg [''ffmpeg'', ''-y'', ''-ss'', ''0.000'', ''-i'', ''/in/a.mkv'', ''-to'', ''5.000'',
                 ''-c:v'', ''libx264'', ''-c:a'', ''aac'', ''-movflags'', ''+faststart'',
                 ''/out/output.mp4''] (Some 0),
      UiMessage ''info'' ''Done'' ''All jobs finished.'']"
  by code_simp

text \<open>
  Claim C10, as stated, fails for a probed duration of zero: \<open>if duration and ...\<close>
  treats it as unknown. With trim enabled, start 0 and a probe that prints
  \<open>0.000000\<close>, the start is not less than the duration, yet the command is planned and
  \<open>ffmpeg\<close> runs.
\<close>

theorem trim_start_beyond_duration_counterexample:
  "trim_enabled_var demo_app_trim
   \<and> get_duration_seconds demo_env_zero ''/in/a.mkv'' = Some (Fin 0)
   \<and> f_ge (trim_start_sec demo_app_trim) (Fin 0)
   \<and> run demo_env_zero demo_app_trim =
     [SetProgress 0,
      RunFfmpeg [''ffmpeg'', ''-y'', ''-ss'', ''0.000'', ''-i'', ''/in/a.mkv'', ''-to'', ''5.000'',
                 ''-c:v'', ''libx264'', ''-c:a'', ''aac'', ''-movflags'', ''+faststart'',
                 ''/out/output.mp4''] (Some 0),
      UiMessage ''info'' ''Done'' ''All jobs finished.'']"
  using zero_duration_probe zero_duration_run
  by (simp add: demo_app_trim_def demo_app_def f_ge_def)

text \<open>
  Claim C10, amended. For an item with trim enabled whose freshly probed duration is known
  and not zero and whose trim start is greater than or equal to it, planning fails with
  \<open>Trim start must be within the video duration.\<close>; the worker shows that one message
  and stops: no \<open>ffmpeg\<close> run for this item or a later one.
\<close>

theorem trim_start_beyond_duration:
  assumes "trim_enabled vals" and "get_duration_seconds env in_path = Some d"
    and "truthy d" and "f_ge (trim_start_sec self) d"
  shows "plan_item env self vals in_path
           = Inl (ValueError ''Trim start must be within the video duration.'')
       \<and> worker env self vals (in_path # rest)
           = [UiMessage ''error'' ''Input error''
                ''Trim start must be within the video duration.'']
       \<and> ffmpeg_runs (worker env self vals (in_path # rest)) = []"
proof -
  from assms have "plan_item env self vals in_path
      = Inl (ValueError ''Trim start must be within the video duration.'')"
    by (simp add: plan_item_def Let_def)
  then show ?thesis by simp
qed

lemma demo_duration_probe:
  "get_duration_seconds demo_env ''/in/a.mkv'' = Some (Fin (21 / 2))"
  by code_simp

theorem trim_start_beyond_duration_witness:
  "get_duration_seconds demo_env ''/in/a.mkv'' = Some (Fin (21 / 2)) \<and> truthy (Fin (21 / 2))
   \<and> f_ge (Fin 12) (Fin (21 / 2))
   \<and> worker demo_env (demo_app\<lparr>trim_start_sec := Fin 12\<rparr>) (demo_values\<lparr>trim_enabled := True\<rparr>)
        [''/in/a.mkv'', ''/in/c.mkv'']
      = [UiMessage ''error'' ''Input error'' ''Trim start must be within the video duration.'']"
  using trim_start_beyond_duration[of "demo_values\<lparr>trim_enabled := True\<rparr>" demo_env
      "''/in/a.mkv''" "Fin (21 / 2)" "demo_app\<lparr>trim_start_sec := Fin 12\<rparr>" "[''/in/c.mkv'']"]
    demo_duration_probe
  by (simp add: demo_values_def demo_app_def truthy_def f_ge_def)

section \<open>Properties of float rounding\<close>

text \<open>
  Rounding never crosses a float: a float below the exact value stays below the rounded
  one. This is what the comparisons of the batch run need from the arithmetic.
\<close>

subsection \<open>Powers of two\<close>

lemma pow2_powi: "pow2 e = 2 powi e"
  by (simp add: pow2_def power_int_def inverse_eq_divide power_one_over)

lemma pow2_pos: "0 < pow2 e"
  by (simp add: pow2_powi)

lemma pow2_add: "pow2 (a + b) = pow2 a * pow2 b"
  by (simp add: pow2_powi power_int_add)

lemma pow2_mono: "a \<le> b \<Longrightarrow> pow2 a \<le> pow2 b"
  by (simp add: pow2_powi power_int_increasing)

lemma pow2_strict_mono: "a < b \<Longrightarrow> pow2 a < pow2 b"
  by (simp add: pow2_powi power_int_strict_increasing)

lemma pow2_of_int: "0 \<le> k \<Longrightarrow> pow2 k = of_int (2 ^ nat k)"
  by (simp add: pow2_def)

lemma pow2_diff: "pow2 a / pow2 b = pow2 (a - b)"
proof -
  have "pow2 a = pow2 (a - b) * pow2 b" using pow2_add[of "a - b" b] by simp
  then show ?thesis using pow2_pos[of b] by simp
qed

subsection \<open>The binary logarithm\<close>

lemma bitlen_pow2_bounds:
  assumes "0 < p"
  shows "pow2 (bitlen p - 1) \<le> of_int p" and "of_int p < pow2 (bitlen p)"
proof -
  from bitlen_bounds[OF assms]
  have lo: "2 ^ nat (bitlen p - 1) \<le> p" and hi: "p < 2 ^ nat (bitlen p)" by simp_all
  have b1: "1 \<le> bitlen p" using assms by (simp add: bitlen_def floorlog_def)
  have "pow2 (bitlen p - 1) = of_int (2 ^ nat (bitlen p - 1))"
    using b1 by (intro pow2_of_int) simp
  also have "\<dots> \<le> of_int p" using lo by (simp only: of_int_le_iff)
  finally show "pow2 (bitlen p - 1) \<le> of_int p" .
  have "(of_int p :: rat) < of_int (2 ^ nat (bitlen p))" using hi by (simp only: of_int_less_iff)
  also have "\<dots> = pow2 (bitlen p)" using b1 by (intro pow2_of_int[symmetric]) simp
  finally show "of_int p < pow2 (bitlen p)" .
qed

lemma ilog2_bounds:
  assumes "0 < x"
  shows "pow2 (ilog2 x) \<le> x" and "x < pow2 (ilog2 x + 1)"
proof -
  obtain p q where pq: "quotient_of x = (p, q)" by force
  have q0: "0 < q" using pq by (rule quotient_of_denom_pos)
  have x: "x = of_int p / of_int q" using pq by (rule quotient_of_div)
  have p0: "0 < p" using assms x q0 by (simp add: zero_less_divide_iff)
  define a where "a = bitlen p"
  define b where "b = bitlen q"
  have pa: "pow2 (a - 1) \<le> of_int p" "of_int p < pow2 a"
    using bitlen_pow2_bounds[OF p0] by (simp_all add: a_def)
  have qb: "pow2 (b - 1) \<le> of_int q" "of_int q < pow2 b"
    using bitlen_pow2_bounds[OF q0] by (simp_all add: b_def)
  have qpos: "(0::rat) < of_int q" using q0 by simp
  have ppos: "(0::rat) < of_int p" using p0 by simp
  have "x < pow2 a / of_int q" using pa(2) qpos by (simp add: x divide_strict_right_mono)
  also have "\<dots> \<le> pow2 a / pow2 (b - 1)"
    using qb(1) pow2_pos[of a] pow2_pos[of "b - 1"] by (simp add: frac_le)
  also have "\<dots> = pow2 (a - b + 1)" by (simp add: pow2_diff algebra_simps)
  finally have up: "x < pow2 (a - b + 1)" .
  have "pow2 (a - b - 1) = pow2 (a - 1) / pow2 b" by (simp add: pow2_diff algebra_simps)
  also have "\<dots> \<le> of_int p / pow2 b" using pa(1) pow2_pos[of b] by (simp add: divide_right_mono)
  also have "\<dots> < of_int p / of_int q"
    using qb(2) ppos qpos by (simp add: divide_strict_left_mono)
  finally have lo: "pow2 (a - b - 1) < x" by (simp add: x)
  have il: "ilog2 x = (if pow2 (a - b) \<le> x then a - b else a - b - 1)"
    by (simp add: ilog2_def pq a_def b_def)
  show "pow2 (ilog2 x) \<le> x" using lo by (simp add: il)
  show "x < pow2 (ilog2 x + 1)" using up by (auto simp: il)
qed

lemma ilog2_unique:
  assumes "pow2 e \<le> x" and "x < pow2 (e + 1)"
  shows "ilog2 x = e"
proof -
  have x0: "0 < x" using assms(1) pow2_pos[of e] by simp
  note b = ilog2_bounds[OF x0]
  have "\<not> e < ilog2 x"
  proof
    assume "e < ilog2 x"
    then have "pow2 (e + 1) \<le> pow2 (ilog2 x)" by (intro pow2_mono) simp
    with b(1) assms(2) show False by simp
  qed
  moreover have "\<not> ilog2 x < e"
  proof
    assume "ilog2 x < e"
    then have "pow2 (ilog2 x + 1) \<le> pow2 e" by (intro pow2_mono) simp
    with b(2) assms(1) show False by simp
  qed
  ultimately show ?thesis by simp
qed

lemma ilog2_mono:
  assumes "0 < x" and "x \<le> y"
  shows "ilog2 x \<le> ilog2 y"
proof (rule ccontr)
  assume "\<not> ilog2 x \<le> ilog2 y"
  then have "pow2 (ilog2 y + 1) \<le> pow2 (ilog2 x)" by (intro pow2_mono) simp
  moreover have "pow2 (ilog2 x) \<le> x" using assms(1) by (rule ilog2_bounds)
  moreover have "y < pow2 (ilog2 y + 1)" using assms by (intro ilog2_bounds) simp
  ultimately show False using assms(2) by simp
qed

lemma ilog2_zero: "ilog2 0 = - 2"
  by code_simp

subsection \<open>Rounding to an integer\<close>

lemma rhe_bounds: "\<lfloor>t\<rfloor> \<le> round_half_even t" "round_half_even t \<le> \<lfloor>t\<rfloor> + 1"
  by (simp_all add: round_half_even_def Let_def)

lemma rhe_of_int: "round_half_even (of_int n) = n"
  by (simp add: round_half_even_def)

lemma rhe_ge_int:
  assumes "of_int n \<le> t"
  shows "n \<le> round_half_even t"
proof -
  from assms have "n \<le> \<lfloor>t\<rfloor>" by (simp only: le_floor_iff)
  also have "\<dots> \<le> round_half_even t" by (rule rhe_bounds)
  finally show ?thesis .
qed

lemma rhe_le_int:
  assumes "t \<le> of_int n"
  shows "round_half_even t \<le> n"
proof (cases "t = of_int n")
  case True
  then show ?thesis by (simp add: rhe_of_int)
next
  case False
  with assms have "t < of_int n" by simp
  then have "\<lfloor>t\<rfloor> < n" by (simp add: floor_less_iff)
  with rhe_bounds(2)[of t] show ?thesis by simp
qed

subsection \<open>Rounding to a float\<close>

lemma quantum_pos: "0 < quantum x"
  by (simp add: quantum_def pow2_pos)

lemma fl_nonzero:
  assumes "y \<noteq> 0"
  shows "fl y = (if 1024 \<le> ilog2 \<bar>of_int (round_half_even (y / quantum y)) * quantum y\<bar>
                 then (if 0 < of_int (round_half_even (y / quantum y)) * quantum y
                       then PInf else NInf)
                 else Fin (of_int (round_half_even (y / quantum y)) * quantum y))"
  using assms by (simp add: fl_def Let_def)

lemma float_grid:
  assumes "fl x = Fin x" and "x \<noteq> 0"
  shows "of_int (round_half_even (x / quantum x)) * quantum x = x" and "ilog2 \<bar>x\<bar> < 1024"
proof -
  from assms show g: "of_int (round_half_even (x / quantum x)) * quantum x = x"
    by (simp add: fl_nonzero split: if_splits)
  from assms g show "ilog2 \<bar>x\<bar> < 1024"
    by (simp add: fl_nonzero split: if_splits)
qed

lemma rounded_ge:
  assumes rep: "fl x = Fin x" and xy: "x \<le> y" and y0: "y \<noteq> 0"
  shows "x \<le> of_int (round_half_even (y / quantum y)) * quantum y"
proof -
  define qy where "qy = quantum y"
  define m where "m = round_half_even (y / qy)"
  have qy0: "0 < qy" by (simp add: qy_def quantum_pos)
  consider (a) "x \<le> 0" "0 < y" | (b) "0 < x" | (c) "x < 0" "y < 0"
    using xy y0 by linarith
  then have "x \<le> of_int m * qy"
  proof cases
    case a
    have "of_int 0 \<le> y / qy" using a(2) qy0 by simp
    then have "0 \<le> m" unfolding m_def by (rule rhe_ge_int)
    then have "0 \<le> of_int m * qy" using qy0 by simp
    with a(1) show ?thesis by simp
  next
    case b
    then have y_pos: "0 < y" using xy by simp
    define n where "n = round_half_even (x / quantum x)"
    have xn: "of_int n * quantum x = x" using float_grid(1)[OF rep] b by (simp add: n_def)
    have ee: "ilog2 x \<le> ilog2 y" using b xy by (rule ilog2_mono)
    show ?thesis
    proof (cases "max (ilog2 x) (- 1022) = max (ilog2 y) (- 1022)")
      case True
      then have "quantum x = qy" using b y_pos by (simp add: quantum_def qy_def)
      with xn have "x = of_int n * qy" by simp
      then have "of_int n \<le> y / qy" using xy qy0 by (simp add: pos_le_divide_eq)
      then have "n \<le> m" unfolding m_def by (rule rhe_ge_int)
      then have "of_int n * qy \<le> of_int m * qy" using qy0 by simp
      with \<open>x = of_int n * qy\<close> show ?thesis by simp
    next
      case False
      with ee have big: "- 1022 < ilog2 y" and lt: "ilog2 x < ilog2 y" by auto
      then have qy_eq: "qy = pow2 (ilog2 y - 52)" using y_pos by (simp add: quantum_def qy_def)
      have "pow2 (ilog2 y) / qy = pow2 52" by (simp add: qy_eq pow2_diff)
      also have "\<dots> = of_int (2 ^ 52)" by (simp add: pow2_def)
      finally have e1: "pow2 (ilog2 y) / qy = of_int (2 ^ 52)" .
      have "pow2 (ilog2 y) \<le> y" using y_pos by (rule ilog2_bounds)
      then have "pow2 (ilog2 y) / qy \<le> y / qy" using qy0 by (simp add: divide_right_mono)
      then have "of_int (2 ^ 52) \<le> y / qy" using e1 by simp
      then have "2 ^ 52 \<le> m" unfolding m_def by (rule rhe_ge_int)
      then have "(of_int (2 ^ 52) :: rat) \<le> of_int m" by (simp only: of_int_le_iff)
      then have "of_int (2 ^ 52) * qy \<le> of_int m * qy" using qy0 by simp
      moreover have "of_int (2 ^ 52) * qy = pow2 (ilog2 y)" using e1 qy0 by (simp add: field_simps)
      moreover have "x < pow2 (ilog2 x + 1)" using b by (rule ilog2_bounds)
      moreover have "pow2 (ilog2 x + 1) \<le> pow2 (ilog2 y)" using lt by (intro pow2_mono) simp
      ultimately show ?thesis by simp
    qed
  next
    case c
    define n where "n = round_half_even (x / quantum x)"
    have xn: "of_int n * quantum x = x" using float_grid(1)[OF rep] c by (simp add: n_def)
    have ee: "ilog2 \<bar>y\<bar> \<le> ilog2 \<bar>x\<bar>" using c xy by (intro ilog2_mono) simp_all
    define k where "k = max (ilog2 \<bar>x\<bar>) (- 1022) - max (ilog2 \<bar>y\<bar>) (- 1022)"
    have k0: "0 \<le> k" using ee by (simp add: k_def)
    have "quantum x / qy = pow2 k" by (simp add: quantum_def qy_def pow2_diff k_def)
    also have "\<dots> = of_int (2 ^ nat k)" using k0 by (rule pow2_of_int)
    finally have "quantum x = of_int (2 ^ nat k) * qy" using qy0 by (simp add: field_simps)
    with xn have xg: "x = of_int (n * 2 ^ nat k) * qy" by simp
    then have "of_int (n * 2 ^ nat k) \<le> y / qy" using xy qy0 by (simp add: pos_le_divide_eq)
    then have "n * 2 ^ nat k \<le> m" unfolding m_def by (rule rhe_ge_int)
    then have "(of_int (n * 2 ^ nat k) :: rat) \<le> of_int m" by (simp only: of_int_le_iff)
    then have "of_int (n * 2 ^ nat k) * qy \<le> of_int m * qy" using qy0 by simp
    with xg show ?thesis by simp
  qed
  then show ?thesis by (simp add: m_def qy_def)
qed

lemma fl_ge:
  assumes rep: "fl x = Fin x" and xy: "x \<le> y"
  shows "f_le (Fin x) (fl y)"
proof (cases "y = 0")
  case True
  with xy show ?thesis by (simp add: fl_def)
next
  case False
  define r where "r = of_int (round_half_even (y / quantum y)) * quantum y"
  have xr: "x \<le> r" unfolding r_def using rep xy False by (rule rounded_ge)
  have fy: "fl y = (if 1024 \<le> ilog2 \<bar>r\<bar> then (if 0 < r then PInf else NInf) else Fin r)"
    using False by (simp add: fl_nonzero r_def)
  show ?thesis
  proof (cases "1024 \<le> ilog2 \<bar>r\<bar> \<and> \<not> 0 < r")
    case True
    then have big: "1024 \<le> ilog2 \<bar>r\<bar>" and nr: "\<not> 0 < r" by blast+
    from nr have r0: "r \<le> 0" by simp
    have "r \<noteq> 0" using big by (auto simp: ilog2_zero)
    with r0 have rneg: "r < 0" by simp
    with xr have xneg: "x < 0" by simp
    have "ilog2 \<bar>r\<bar> \<le> ilog2 \<bar>x\<bar>" using rneg xr by (intro ilog2_mono) simp_all
    with big have "1024 \<le> ilog2 \<bar>x\<bar>" by simp
    moreover have "ilog2 \<bar>x\<bar> < 1024" using rep xneg by (intro float_grid(2)) simp_all
    ultimately show ?thesis by simp
  next
    case False
    with xr show ?thesis by (auto simp: fy)
  qed
qed

subsection \<open>Symmetry, and the literal \<open>0.01\<close>\<close>

lemma rhe_neg: "round_half_even (- t) = - round_half_even t"
proof (cases "t = of_int \<lfloor>t\<rfloor>")
  case True
  then obtain n where "t = of_int n" ..
  then have "round_half_even (- t) = round_half_even (of_int (- n))" by simp
  also have "\<dots> = - n" by (rule rhe_of_int)
  finally show ?thesis using \<open>t = of_int n\<close> by (simp add: rhe_of_int)
next
  case False
  then have nf: "\<lfloor>- t\<rfloor> = - \<lfloor>t\<rfloor> - 1"
    using of_int_floor_le[of t] floor_correct[of t] by (intro floor_unique) (simp_all, linarith+)
  have fr: "0 < t - of_int \<lfloor>t\<rfloor>" "t - of_int \<lfloor>t\<rfloor> < 1"
    using False of_int_floor_le[of t] floor_correct[of t] by linarith+
  define f where "f = \<lfloor>t\<rfloor>"
  define u where "u = t - of_int f"
  have t: "t = of_int f + u" by (simp add: u_def)
  have u: "0 < u" "u < 1" using fr by (simp_all add: u_def f_def)
  have a: "round_half_even t
      = (if u < 1 / 2 then f else if 1 / 2 < u then f + 1 else if even f then f else f + 1)"
    unfolding round_half_even_def Let_def f_def[symmetric] u_def[symmetric] by (rule refl)
  have "- t - of_int (- f - 1) = 1 - u" by (simp add: t)
  then have b: "round_half_even (- t)
      = (if 1 - u < 1 / 2 then - f - 1 else if 1 / 2 < 1 - u then - f
         else if even (- f - 1) then - f - 1 else - f)"
    unfolding round_half_even_def Let_def nf f_def[symmetric] by simp
  show ?thesis
  proof (cases "u < 1 / 2")
    case True
    then show ?thesis by (simp add: a b)
  next
    case False
    show ?thesis
    proof (cases "1 / 2 < u")
      case True
      then show ?thesis by (simp add: a b)
    next
      case False
      with \<open>\<not> u < 1 / 2\<close> have "u = 1 / 2" by simp
      then show ?thesis by (simp add: a b)
    qed
  qed
qed

lemma quantum_neg: "quantum (- x) = quantum x"
  by (simp add: quantum_def)

lemma fl_never_nan: "fl y \<noteq> NaN"
  by (simp add: fl_def Let_def)

lemma fl_neg: "fl (- y) = f_neg (fl y)"
proof (cases "y = 0")
  case True
  then show ?thesis by (simp add: fl_def)
next
  case False
  define r where "r = of_int (round_half_even (y / quantum y)) * quantum y"
  have "- y / quantum (- y) = - (y / quantum y)" by (simp add: quantum_neg)
  then have r': "of_int (round_half_even (- y / quantum (- y))) * quantum (- y) = - r"
    by (simp only: rhe_neg quantum_neg r_def of_int_minus mult_minus_left)
  have "fl (- y) = (if 1024 \<le> ilog2 \<bar>r\<bar> then (if 0 < - r then PInf else NInf) else Fin (- r))"
    using False fl_nonzero[of "- y"] unfolding r' by simp
  moreover have "fl y = (if 1024 \<le> ilog2 \<bar>r\<bar> then (if 0 < r then PInf else NInf) else Fin r)"
    using False fl_nonzero[of y] by (simp add: r_def)
  moreover have "1024 \<le> ilog2 \<bar>r\<bar> \<Longrightarrow> r \<noteq> 0" by (auto simp: ilog2_zero)
  ultimately show ?thesis by auto
qed

lemma f_le_neg: "f_le (Fin (- x)) (f_neg v) = f_le v (Fin x)"
  by (cases v) auto

lemma fl_le:
  assumes rep: "fl x = Fin x" and yx: "y \<le> x"
  shows "f_le (fl y) (Fin x)"
proof -
  have "fl (- x) = Fin (- x)" using rep by (simp add: fl_neg)
  moreover have "- x \<le> - y" using yx by simp
  ultimately have "f_le (Fin (- x)) (fl (- y))" by (rule fl_ge)
  then show ?thesis by (simp add: fl_neg f_le_neg)
qed

lemma fl_eps: "fl (1 / 100) = Fin (5764607523034235 / 576460752303423488)"
  by code_simp

lemma f_le_add_eps:
  assumes "is_float s" and "f_le e s"
  shows "f_le e (f_add s (fl (1 / 100)))"
proof (cases s)
  case (Fin x)
  with assms(1) have rep: "fl x = Fin x" by simp
  have "x \<le> x + 5764607523034235 / 576460752303423488" by simp
  with rep have k: "f_le (Fin x) (fl (x + 5764607523034235 / 576460752303423488))"
    by (rule fl_ge)
  show ?thesis
  proof (cases e)
    case (Fin y)
    with assms(2) \<open>s = Fin x\<close> have "y \<le> x" by simp
    with k show ?thesis
      using fl_never_nan[of "x + 5764607523034235 / 576460752303423488"]
      by (cases "fl (x + 5764607523034235 / 576460752303423488)")
         (simp_all add: Fin \<open>s = Fin x\<close> fl_eps)
  next
    case PInf
    with assms(2) \<open>s = Fin x\<close> show ?thesis by simp
  next
    case NInf
    then show ?thesis
      using fl_never_nan[of "x + 5764607523034235 / 576460752303423488"]
      by (cases "fl (x + 5764607523034235 / 576460752303423488)")
         (simp_all add: \<open>s = Fin x\<close> fl_eps)
  next
    case NaN
    with assms(2) show ?thesis by simp
  qed
next
  case PInf
  with assms(2) show ?thesis by (cases e) (simp_all add: fl_eps)
next
  case NInf
  with assms(2) show ?thesis by (cases e) (simp_all add: fl_eps)
next
  case NaN
  with assms(2) show ?thesis by (cases e) simp_all
qed

lemma f_ge_sub_eps:
  assumes "fl e = Fin e" and "d - 1 / 100 \<le> e"
  shows "f_ge (Fin e) (f_sub (Fin d) (fl (1 / 100)))"
proof -
  have "d - 5764607523034235 / 576460752303423488 \<le> d - 1 / 100" by simp
  with assms(2) have "d - 5764607523034235 / 576460752303423488 \<le> e" by linarith
  with assms(1) have "f_le (fl (d - 5764607523034235 / 576460752303423488)) (Fin e)"
    by (rule fl_le)
  then show ?thesis by (simp add: f_ge_def f_sub_def fl_eps)
qed

section \<open>Trim bounds in the batch run\<close>

lemma plan_item_trim:
  assumes te: "trim_enabled vals" and pl: "plan_item env self vals in_path = Inr (vals1, cmd)"
  shows "\<not> ((case get_duration_seconds env in_path of None \<Rightarrow> False | Some d \<Rightarrow> truthy d)
            \<and> f_ge (trim_start_sec self) (the (get_duration_seconds env in_path)))"
    and "vals1 = vals\<lparr>trim_start := Some (trim_start_sec self),
           trim_end :=
             (if ((case get_duration_seconds env in_path of None \<Rightarrow> False | Some d \<Rightarrow> truthy d)
                   \<and> f_ge (trim_end_sec self)
                        (f_sub (the (get_duration_seconds env in_path)) (fl (1 / 100))))
                 \<or> f_le (trim_end_sec self) (f_add (trim_start_sec self) (fl (1 / 100)))
              then None else Some (trim_end_sec self))\<rparr>"
    and "\<exists>out_path. build_command env vals1 in_path out_path (app_encoders self) (app_decoders self)
           = Inr cmd"
  using assms
  by (auto simp: plan_item_def Let_def split: if_splits sum.splits)

text \<open>
  Claim C9, amended. For a trim-enabled item that is planned, the values handed to the
  planner hold the trim start read from the interface, and the end bound is dropped
  (\<open>trim_end\<close> is \<open>None\<close>, nothing follows \<open>-i <input>\<close> as \<open>-to\<close>) in each of
  these cases: the probed duration is known and not zero and \<open>end >= duration - 0.01\<close>
  in float arithmetic; in particular, for finite values, whenever the end is at least
  the exact \<open>duration - 1/100\<close>; and whenever \<open>end <= start\<close>, a clip of zero or
  negative length.
\<close>

theorem trim_end_sanitized:
  assumes te: "trim_enabled vals" and pl: "plan_item env self vals in_path = Inr (vals1, cmd)"
  shows "trim_start vals1 = Some (trim_start_sec self)
   \<and> (\<forall>d. get_duration_seconds env in_path = Some d \<and> truthy d
          \<and> f_ge (trim_end_sec self) (f_sub d (fl (1 / 100)))
        \<longrightarrow> trim_end vals1 = None)
   \<and> (\<forall>d e. get_duration_seconds env in_path = Some (Fin d) \<and> d \<noteq> 0
          \<and> trim_end_sec self = Fin e \<and> is_float (Fin e) \<and> d - 1 / 100 \<le> e
        \<longrightarrow> trim_end vals1 = None)
   \<and> (is_float (trim_start_sec self) \<and> f_le (trim_end_sec self) (trim_start_sec self)
        \<longrightarrow> trim_end vals1 = None)
   \<and> (trim_end vals1 = None
        \<longrightarrow> (\<exists>rest out_path.
              cmd = [''ffmpeg'', ''-y'', ''-ss'', format_3f (trim_start_sec self), ''-i'', in_path]
                    @ rest @ [out_path]
              \<and> ''-to'' \<notin> set rest))"
proof -
  note v1 = plan_item_trim(2)[OF te pl]
  have s: "trim_start vals1 = Some (trim_start_sec self)" by (subst v1) simp
  have a: "trim_end vals1 = None"
    if "get_duration_seconds env in_path = Some d" "truthy d"
       "f_ge (trim_end_sec self) (f_sub d (fl (1 / 100)))" for d
    using that by (subst v1) simp
  have a': "trim_end vals1 = None"
    if "get_duration_seconds env in_path = Some (Fin d)" "d \<noteq> 0"
       "trim_end_sec self = Fin e" "is_float (Fin e)" "d - 1 / 100 \<le> e" for d e
  proof -
    from that(4) have "fl e = Fin e" by simp
    then have "f_ge (Fin e) (f_sub (Fin d) (fl (1 / 100)))" using that(5) by (rule f_ge_sub_eps)
    with that(1,2,3) show ?thesis by (intro a[of "Fin d"]) (simp_all add: truthy_def)
  qed
  have b: "trim_end vals1 = None"
    if "is_float (trim_start_sec self)" "f_le (trim_end_sec self) (trim_start_sec self)"
  proof -
    from that have "f_le (trim_end_sec self) (f_add (trim_start_sec self) (fl (1 / 100)))"
      by (rule f_le_add_eps)
    then show ?thesis by (subst v1) simp
  qed
  have c: "\<exists>rest out_path.
      cmd = [''ffmpeg'', ''-y'', ''-ss'', format_3f (trim_start_sec self), ''-i'', in_path]
            @ rest @ [out_path] \<and> ''-to'' \<notin> set rest"
    if n: "trim_end vals1 = None"
  proof -
    from plan_item_trim(3)[OF te pl] obtain out_path where
      bc: "build_command env vals1 in_path out_path (app_encoders self) (app_decoders self) = Inr cmd"
      by blast
    have te1: "trim_enabled vals1" using te by (subst v1) simp
    from bc have "cmd = input_args vals1 in_path @ output_args vals1 (app_encoders self) @ [out_path]"
      by (auto simp: build_command_flat split: option.splits)
    then have "cmd = [''ffmpeg'', ''-y'', ''-ss'', format_3f (trim_start_sec self), ''-i'', in_path]
        @ output_args vals1 (app_encoders self) @ [out_path]"
      using te1 s n by (simp add: input_args_def)
    with to_notin_output_args[of vals1 "app_encoders self"] show ?thesis by blast
  qed
  from s a a' b c show ?thesis by blast
qed


lemma zero_duration_plan:
  "plan_item demo_env_zero demo_app_trim (demo_values\<lparr>trim_enabled := True\<rparr>) ''/in/a.mkv''
     = Inr (demo_values\<lparr>trim_enabled := True, trim_start := Some (Fin 0),
                        trim_end := Some (Fin 5)\<rparr>,
            [''ffmpeg'', ''-y'', ''-ss'', ''0.000'', ''-i'', ''/in/a.mkv'', ''-to'', ''5.000'',
             ''-c:v'', ''libx264'', ''-c:a'', ''aac'', ''-movflags'', ''+faststart'',
             ''/out/output.mp4''])"
  by code_simp

lemma five_beyond_zero: "f_ge (Fin 5) (f_sub (Fin 0) (fl (1 / 100)))"
  by code_simp

text \<open>
  Claim C9, as stated, fails for a probed duration of zero, which
  \<open>if duration and ...\<close> treats as unknown: with a probe that prints \<open>0.000000\<close>,
  start 0 and end 5, the end lies beyond the probed duration, yet it is kept and the
  command carries \<open>-to 5.000\<close>.
\<close>

theorem trim_end_sanitized_counterexample:
  "trim_enabled (demo_values\<lparr>trim_enabled := True\<rparr>)
   \<and> get_duration_seconds demo_env_zero ''/in/a.mkv'' = Some (Fin 0)
   \<and> trim_end_sec demo_app_trim = Fin 5
   \<and> f_ge (Fin 5) (f_sub (Fin 0) (fl (1 / 100)))
   \<and> plan_item demo_env_zero demo_app_trim (demo_values\<lparr>trim_enabled := True\<rparr>) ''/in/a.mkv''
     = Inr (demo_values\<lparr>trim_enabled := True, trim_start := Some (Fin 0),
                        trim_end := Some (Fin 5)\<rparr>,
            [''ffmpeg'', ''-y'', ''-ss'', ''0.000'', ''-i'', ''/in/a.mkv'', ''-to'', ''5.000'',
             ''-c:v'', ''libx264'', ''-c:a'', ''aac'', ''-movflags'', ''+faststart'',
             ''/out/output.mp4''])"
  using zero_duration_probe zero_duration_plan five_beyond_zero
  by (simp add: demo_app_trim_def demo_values_def)

lemma demo_trim_plans:
  "plan_item demo_env (demo_app\<lparr>trim_start_sec := Fin 2, trim_end_sec := Fin 11\<rparr>)
       (demo_values\<lparr>trim_enabled := True\<rparr>) ''/in/a.mkv''
     = Inr (demo_values\<lparr>trim_enabled := True, trim_start := Some (Fin 2), trim_end := None\<rparr>,
            [''ffmpeg'', ''-y'', ''-ss'', ''2.000'', ''-i'', ''/in/a.mkv'',
             ''-c:v'', ''libx264'', ''-c:a'', ''aac'', ''-movflags'', ''+faststart'',
             ''/out/output.mp4''])"
  "plan_item demo_env (demo_app\<lparr>trim_start_sec := Fin 5, trim_end_sec := Fin 3\<rparr>)
       (demo_values\<lparr>trim_enabled := True\<rparr>) ''/in/a.mkv''
     = Inr (demo_values\<lparr>trim_enabled := True, trim_start := Some (Fin 5), trim_end := None\<rparr>,
            [''ffmpeg'', ''-y'', ''-ss'', ''5.000'', ''-i'', ''/in/a.mkv'',
             ''-c:v'', ''libx264'', ''-c:a'', ''aac'', ''-movflags'', ''+faststart'',
             ''/out/output.mp4''])"
  by code_simp+

lemma demo_floats: "is_float (Fin 5)" "f_ge (Fin 11) (f_sub (Fin (21 / 2)) (fl (1 / 100)))"
  by code_simp+

theorem trim_end_sanitized_witness:
  "trim_enabled (demo_values\<lparr>trim_enabled := True\<rparr>)
   \<and> get_duration_seconds demo_env ''/in/a.mkv'' = Some (Fin (21 / 2)) \<and> truthy (Fin (21 / 2))
   \<and> f_ge (Fin 11) (f_sub (Fin (21 / 2)) (fl (1 / 100)))
   \<and> plan_item demo_env (demo_app\<lparr>trim_start_sec := Fin 2, trim_end_sec := Fin 11\<rparr>)
       (demo_values\<lparr>trim_enabled := True\<rparr>) ''/in/a.mkv''
     = Inr (demo_values\<lparr>trim_enabled := True, trim_start := Some (Fin 2), trim_end := None\<rparr>,
            [''ffmpeg'', ''-y'', ''-ss'', ''2.000'', ''-i'', ''/in/a.mkv'',
             ''-c:v'', ''libx264'', ''-c:a'', ''aac'', ''-movflags'', ''+faststart'',
             ''/out/output.mp4''])
   \<and> is_float (Fin 5) \<and> f_le (Fin 3) (Fin 5)
   \<and> plan_item demo_env (demo_app\<lparr>trim_start_sec := Fin 5, trim_end_sec := Fin 3\<rparr>)
       (demo_values\<lparr>trim_enabled := True\<rparr>) ''/in/a.mkv''
     = Inr (demo_values\<lparr>trim_enabled := True, trim_start := Some (Fin 5), trim_end := None\<rparr>,
            [''ffmpeg'', ''-y'', ''-ss'', ''5.000'', ''-i'', ''/in/a.mkv'',
             ''-c:v'', ''libx264'', ''-c:a'', ''aac'', ''-movflags'', ''+faststart'',
             ''/out/output.mp4''])"
proof -
  have te: "trim_enabled (demo_values\<lparr>trim_enabled := True\<rparr>)" by simp
  note a = trim_end_sanitized[OF te demo_trim_plans(1)]
  note b = trim_end_sanitized[OF te demo_trim_plans(2)]
  from a b te demo_trim_plans demo_floats demo_duration_probe show ?thesis
    by (simp add: truthy_def)
qed

end
